theory Spec2Isabelle
  imports Main "HOL-Library.AList"
begin

section \<open>Data model of the unified server (src/src/server.ts, TYPES)\<close>

text \<open>
  The server is single-threaded: every handler and every timer callback runs to completion
  on the event loop.  Each handler is therefore a function from the server state to the
  server state; \<open>Date.now()\<close> is an argument of the event that runs the handler.

  A JavaScript \<open>Map\<close> is an association list in insertion order (\<open>AList.update\<close>
  replaces the value of a present key in place and appends an absent key, as \<open>Map.set\<close>
  does; \<open>AList.delete\<close> is \<open>Map.delete\<close>; \<open>map_of\<close> is \<open>Map.get\<close>).
  A JavaScript \<open>Set\<close> is a list in insertion order, maintained by \<open>set_add\<close> and
  \<open>set_delete\<close>.  A WebSocket is a natural number (its identity); a timer handle returned
  by \<open>setTimeout\<close> is a natural number too.  The numeric fields of \<open>PlayerState\<close>
  are never inspected by the server and are kept as integers.
\<close>

definition set_add :: "'a \<Rightarrow> 'a list \<Rightarrow> 'a list" where
  "set_add x xs = (if x \<in> set xs then xs else xs @ [x])"

definition set_delete :: "'a \<Rightarrow> 'a list \<Rightarrow> 'a list" where
  "set_delete x xs = removeAll x xs"

datatype Phase = Waiting | Countdown | Active | Ended

record PlayerState =
  id_p :: string
  x :: int
  y :: int
  hp :: int
  maxHp :: int
  alive :: bool
  hasShield :: bool
  hasSpeed :: bool
  name :: string
  color :: string
  radius :: int
  vx :: int
  vy :: int

record ClientConnection =
  ws :: nat
  c_playerId :: string
  c_gameId :: int
  lastHeartbeat :: int
  isAlive :: bool

record GameSession =
  gameId :: int
  phase :: Phase
  countdownStartTime :: "int option"
  countdownDuration :: int
  players :: "(string \<times> PlayerState) list"
  readyPlayers :: "string list"
  startTime :: "int option"
  winner :: "string option"

text \<open>The callbacks the arena server hands to \<open>setTimeout\<close>, each closed over its game id.\<close>

datatype Timer = CountdownTimer int | AutoStartTimer int | DeadlineTimer int

text \<open>Outbound arena envelopes (the objects passed to \<open>JSON.stringify\<close>).\<close>

datatype OutMsg =
    GameStateUpdate Phase "int option" int nat nat
  | Sync "PlayerState list"
  | PlayerConnected string
  | PlayerDisconnected string
  | UpdateOut string PlayerState
  | EliminatedOut string
  | WinnerOut "string option"
  | ErrorOut string

text \<open>
  The state of \<open>UnifiedServer\<close> on the arena side: the fields of \<open>GameManager\<close>
  (\<open>games\<close>, \<open>gameTimers\<close>), of \<open>ConnectionManager\<close> (\<open>connections\<close>,
  \<open>gameConnections\<close>), \<open>gameDeadlineTimers\<close>, and the environment the code acts on:
  the armed timeouts of the event loop, the sockets whose \<open>readyState\<close> is no longer
  \<open>OPEN\<close>, the closures registered by \<open>ws.on('message')\<close> and \<open>ws.on('close')\<close>
  (each holds the \<open>playerId\<close> and \<open>gameId\<close> of its connection), and the frames handed to
  \<open>ws.send\<close>, in order.  The connection id
  \<open>`${gameId}-${playerId}`\<close> is the pair of its two components (the text of a number
  contains no \<open>-\<close> after its first character, so the string determines the pair).
\<close>

record ArenaServer =
  games :: "(int \<times> GameSession) list"
  gameTimers :: "(int \<times> nat) list"
  connections :: "((int \<times> string) \<times> ClientConnection) list"
  gameConnections :: "(int \<times> (int \<times> string) list) list"
  gameDeadlineTimers :: "(int \<times> nat) list"
  timeouts :: "(nat \<times> Timer) list"
  nextTimeout :: nat
  nextSocket :: nat
  closedSockets :: "nat list"
  listeners :: "(nat \<times> string \<times> int) list"
  outbox :: "(nat \<times> OutMsg) list"

definition initialServer :: ArenaServer where
  "initialServer = \<lparr>games = [], gameTimers = [], connections = [], gameConnections = [],
     gameDeadlineTimers = [], timeouts = [], nextTimeout = 0, nextSocket = 0,
     closedSockets = [], listeners = [], outbox = []\<rparr>"

subsection \<open>The event loop: \<open>setTimeout\<close>, \<open>clearTimeout\<close>, \<open>ws.send\<close>, \<open>ws.close\<close>\<close>

definition setTimeout :: "Timer \<Rightarrow> ArenaServer \<Rightarrow> nat \<times> ArenaServer" where
  "setTimeout cb s =
     (nextTimeout s,
      s\<lparr>timeouts := timeouts s @ [(nextTimeout s, cb)], nextTimeout := Suc (nextTimeout s)\<rparr>)"

definition clearTimeout :: "nat \<Rightarrow> ArenaServer \<Rightarrow> ArenaServer" where
  "clearTimeout h s = s\<lparr>timeouts := AList.delete h (timeouts s)\<rparr>"

definition isOpen :: "ArenaServer \<Rightarrow> nat \<Rightarrow> bool" where
  "isOpen s w = (w \<notin> set (closedSockets s))"

definition sendIfOpen :: "nat \<Rightarrow> OutMsg \<Rightarrow> ArenaServer \<Rightarrow> ArenaServer" where
  "sendIfOpen w m s = (if isOpen s w then s\<lparr>outbox := outbox s @ [(w, m)]\<rparr> else s)"

definition closeSocket :: "nat \<Rightarrow> ArenaServer \<Rightarrow> ArenaServer" where
  "closeSocket w s = s\<lparr>closedSockets := set_add w (closedSockets s)\<rparr>"

section \<open>\<open>GameManager\<close>\<close>

definition newGame :: "int \<Rightarrow> GameSession" where
  "newGame g = \<lparr>gameId = g, phase = Waiting, countdownStartTime = None,
     countdownDuration = 15000, players = [], readyPlayers = [], startTime = None,
     winner = None\<rparr>"

definition getGameState :: "ArenaServer \<Rightarrow> int \<Rightarrow> GameSession option" where
  "getGameState s g = map_of (games s) g"

definition putGame :: "int \<Rightarrow> GameSession \<Rightarrow> ArenaServer \<Rightarrow> ArenaServer" where
  "putGame g gm s = s\<lparr>games := AList.update g gm (games s)\<rparr>"

definition getOrCreateGame :: "int \<Rightarrow> ArenaServer \<Rightarrow> ArenaServer" where
  "getOrCreateGame g s =
     (case getGameState s g of None \<Rightarrow> putGame g (newGame g) s | Some gm \<Rightarrow> s)"

text \<open>\<open>addPlayer\<close> obtains the session and only logs: the roster is not touched.\<close>

definition addPlayer :: "int \<Rightarrow> string \<Rightarrow> ArenaServer \<Rightarrow> ArenaServer" where
  "addPlayer g p s = getOrCreateGame g s"

definition clearGameTimer :: "int \<Rightarrow> ArenaServer \<Rightarrow> ArenaServer" where
  "clearGameTimer g s =
     (case map_of (gameTimers s) g of
        None \<Rightarrow> s
      | Some h \<Rightarrow> (clearTimeout h s)\<lparr>gameTimers := AList.delete g (gameTimers s)\<rparr>)"

definition removePlayer :: "int \<Rightarrow> string \<Rightarrow> ArenaServer \<Rightarrow> ArenaServer" where
  "removePlayer g p s =
     (case getGameState s g of
        None \<Rightarrow> s
      | Some gm \<Rightarrow>
          (let gm' = gm\<lparr>players := AList.delete p (players gm),
                          readyPlayers := set_delete p (readyPlayers gm)\<rparr>
           in if length (players gm') = 0
              then (clearGameTimer g s)\<lparr>games := AList.delete g (games s)\<rparr>
              else putGame g gm' s))"

definition updatePlayerState :: "int \<Rightarrow> string \<Rightarrow> PlayerState \<Rightarrow> ArenaServer \<Rightarrow> ArenaServer" where
  "updatePlayerState g p st s =
     (case getGameState s g of
        None \<Rightarrow> s
      | Some gm \<Rightarrow> putGame g (gm\<lparr>players := AList.update p st (players gm)\<rparr>) s)"

datatype StartCheck = StartCheck (canStart: bool) (reason: string) (readyCount: nat)

fun phaseName :: "Phase \<Rightarrow> string" where
  "phaseName Waiting = ''waiting''"
| "phaseName Countdown = ''countdown''"
| "phaseName Active = ''active''"
| "phaseName Ended = ''ended''"

text \<open>
  The reason of the last branch is \<open>`${readyCount} players ready for battle`\<close>; the decimal
  text of the count is not modelled, the reason of a successful check is never sent.
\<close>

definition canStartGame :: "ArenaServer \<Rightarrow> int \<Rightarrow> StartCheck" where
  "canStartGame s g =
     (case getGameState s g of
        None \<Rightarrow> StartCheck False ''Game not found'' 0
      | Some gm \<Rightarrow>
          (let n = length (readyPlayers gm)
           in if phase gm \<noteq> Waiting
              then StartCheck False (''Game already in phase: '' @ phaseName (phase gm)) n
              else if n = 0 then StartCheck False ''No players ready'' 0
              else if n = 1 then StartCheck True ''Auto-winner (1 player ready)'' 1
              else StartCheck True ''players ready for battle'' n))"

datatype StartResult =
  StartResult (success: bool) (message: string) (gameState: "GameSession option")

definition startGame :: "int \<Rightarrow> int \<Rightarrow> ArenaServer \<Rightarrow> StartResult \<times> ArenaServer" where
  "startGame g now s =
     (case getGameState s g of
        None \<Rightarrow> (StartResult False ''Game not found'' None, s)
      | Some gm \<Rightarrow>
          (let c = canStartGame s g
           in if \<not> canStart c then (StartResult False (reason c) None, s)
              else if readyCount c = 1
              then (let gm' = gm\<lparr>phase := Ended, winner := Some (hd (readyPlayers gm))\<rparr>
                    in (StartResult True ''Auto-winner declared'' (Some gm'), putGame g gm' s))
              else (let gm' = gm\<lparr>phase := Countdown, countdownStartTime := Some now\<rparr>;
                        (h, s') = setTimeout (CountdownTimer g) (putGame g gm' s)
                    in (StartResult True ''Countdown started'' (Some gm'),
                        s'\<lparr>gameTimers := AList.update g h (gameTimers s')\<rparr>))))"

definition declareWinner :: "int \<Rightarrow> string \<Rightarrow> ArenaServer \<Rightarrow> ArenaServer" where
  "declareWinner g w s =
     (case getGameState s g of
        None \<Rightarrow> s
      | Some gm \<Rightarrow> clearGameTimer g (putGame g (gm\<lparr>phase := Ended, winner := Some w\<rparr>) s))"

section \<open>\<open>ConnectionManager\<close>\<close>

definition addConnection :: "nat \<Rightarrow> string \<Rightarrow> int \<Rightarrow> int \<Rightarrow> ArenaServer \<Rightarrow> ArenaServer" where
  "addConnection w p g now s =
     s\<lparr>connections :=
         AList.update (g, p)
           \<lparr>ws = w, c_playerId = p, c_gameId = g, lastHeartbeat = now, isAlive = True\<rparr>
           (connections s),
       gameConnections :=
         AList.update g
           (set_add (g, p) (case map_of (gameConnections s) g of None \<Rightarrow> [] | Some ids \<Rightarrow> ids))
           (gameConnections s)\<rparr>"

definition removeConnection :: "string \<Rightarrow> int \<Rightarrow> ArenaServer \<Rightarrow> ArenaServer" where
  "removeConnection p g s =
     (let s1 = s\<lparr>connections := AList.delete (g, p) (connections s)\<rparr>
      in case map_of (gameConnections s1) g of
           None \<Rightarrow> s1
         | Some ids \<Rightarrow>
             (let ids' = set_delete (g, p) ids
              in if length ids' = 0
                 then s1\<lparr>gameConnections := AList.delete g (gameConnections s1)\<rparr>
                 else s1\<lparr>gameConnections := AList.update g ids' (gameConnections s1)\<rparr>))"

definition updateHeartbeat :: "string \<Rightarrow> int \<Rightarrow> int \<Rightarrow> ArenaServer \<Rightarrow> ArenaServer" where
  "updateHeartbeat p g now s =
     (case map_of (connections s) (g, p) of
        None \<Rightarrow> s
      | Some c \<Rightarrow>
          s\<lparr>connections :=
              AList.update (g, p) (c\<lparr>lastHeartbeat := now, isAlive := True\<rparr>) (connections s)\<rparr>)"

text \<open>The connection records of a room, in the order of the room's index.\<close>

definition gameConns :: "ArenaServer \<Rightarrow> int \<Rightarrow> ClientConnection list" where
  "gameConns s g =
     (case map_of (gameConnections s) g of
        None \<Rightarrow> []
      | Some ids \<Rightarrow> List.map_filter (map_of (connections s)) ids)"

text \<open>
  The test \<open>!excludePlayerId || conn.playerId !== excludePlayerId\<close>: an absent or empty
  exclusion excludes nobody.
\<close>

definition notExcluded :: "string option \<Rightarrow> ClientConnection \<Rightarrow> bool" where
  "notExcluded ex c = (case ex of None \<Rightarrow> True | Some e \<Rightarrow> e = [] \<or> c_playerId c \<noteq> e)"

definition recipients :: "ArenaServer \<Rightarrow> int \<Rightarrow> string option \<Rightarrow> nat list" where
  "recipients s g ex =
     map ws (filter (\<lambda>c. isOpen s (ws c) \<and> notExcluded ex c) (gameConns s g))"

definition broadcastToGame :: "int \<Rightarrow> OutMsg \<Rightarrow> string option \<Rightarrow> ArenaServer \<Rightarrow> ArenaServer" where
  "broadcastToGame g m ex s = s\<lparr>outbox := outbox s @ map (\<lambda>w. (w, m)) (recipients s g ex)\<rparr>"

definition sendToPlayer :: "string \<Rightarrow> int \<Rightarrow> OutMsg \<Rightarrow> ArenaServer \<Rightarrow> ArenaServer" where
  "sendToPlayer p g m s =
     (case map_of (connections s) (g, p) of
        None \<Rightarrow> s
      | Some c \<Rightarrow> sendIfOpen (ws c) m s)"

definition getGamePlayerIds :: "ArenaServer \<Rightarrow> int \<Rightarrow> string list" where
  "getGamePlayerIds s g = map c_playerId (gameConns s g)"

definition staleTimeout :: int where
  "staleTimeout = 60000"

text \<open>
  \<open>checkStaleConnections\<close> visits every record of \<open>connections\<close>; removing the visited
  record during the iteration does not change which other records are visited.
\<close>

definition checkStale :: "int \<Rightarrow> ClientConnection \<Rightarrow> ArenaServer \<Rightarrow> ArenaServer" where
  "checkStale now c s =
     (if now - lastHeartbeat c > staleTimeout
      then removeConnection (c_playerId c) (c_gameId c)
             (if isOpen s (ws c) then closeSocket (ws c) s else s)
      else s)"

definition checkStaleConnections :: "int \<Rightarrow> ArenaServer \<Rightarrow> ArenaServer" where
  "checkStaleConnections now s = fold (checkStale now) (map snd (connections s)) s"

section \<open>\<open>MessageHandler\<close>\<close>

text \<open>
  Inbound arena envelopes after \<open>JSON.parse\<close>, by their \<open>type\<close>, with payloads of the types
  the handlers declare (\<open>state: PlayerState\<close>, \<open>winnerId: string\<close>, a numeric \<open>deadline\<close>).
  \<open>Unknown\<close> is a frame whose \<open>type\<close> is none of the seven handled ones: it is logged and
  ignored.  Frames of a handled type whose payload is not of the declared type are not
  modelled.
\<close>

datatype InMsg =
    Heartbeat
  | MarkReady
  | StartGame
  | Update PlayerState
  | Eliminated
  | Winner string
  | SetDeadline int
  | Unknown

definition broadcastGameState :: "int \<Rightarrow> ArenaServer \<Rightarrow> ArenaServer" where
  "broadcastGameState g s =
     (case getGameState s g of
        None \<Rightarrow> s
      | Some gm \<Rightarrow>
          broadcastToGame g
            (GameStateUpdate (phase gm) (countdownStartTime gm) (countdownDuration gm)
               (length (readyPlayers gm)) (length (getGamePlayerIds s g)))
            None s)"

text \<open>
  \<open>markPlayerReady\<close> ends with the callback \<open>onGameStateChange\<close>, which the constructor
  of \<open>UnifiedServer\<close> sets to \<open>broadcastGameState\<close>.
\<close>

definition markPlayerReady :: "int \<Rightarrow> string \<Rightarrow> ArenaServer \<Rightarrow> ArenaServer" where
  "markPlayerReady g p s =
     (let s1 = getOrCreateGame g s
      in case getGameState s1 g of
           None \<Rightarrow> s1
         | Some gm \<Rightarrow>
             broadcastGameState g (putGame g (gm\<lparr>readyPlayers := set_add p (readyPlayers gm)\<rparr>) s1))"

definition handleHeartbeat :: "string \<Rightarrow> int \<Rightarrow> int \<Rightarrow> ArenaServer \<Rightarrow> ArenaServer" where
  "handleHeartbeat p g now s = updateHeartbeat p g now s"

definition handleMarkReady :: "string \<Rightarrow> int \<Rightarrow> ArenaServer \<Rightarrow> ArenaServer" where
  "handleMarkReady p g s =
     (let s1 = markPlayerReady g p s
      in case getGameState s1 g of None \<Rightarrow> s1 | Some gm \<Rightarrow> broadcastGameState g s1)"

definition handleStartGame :: "string \<Rightarrow> int \<Rightarrow> int \<Rightarrow> ArenaServer \<Rightarrow> ArenaServer" where
  "handleStartGame p g now s =
     (let (r, s1) = startGame g now s
      in case gameState r of
           Some gs \<Rightarrow>
             if success r
             then (let s2 = broadcastGameState g s1
                   in if phase gs = Ended then broadcastToGame g (WinnerOut (winner gs)) None s2
                      else s2)
             else sendToPlayer p g (ErrorOut (message r)) s1
         | None \<Rightarrow> sendToPlayer p g (ErrorOut (message r)) s1)"

definition handlePlayerUpdate :: "string \<Rightarrow> int \<Rightarrow> PlayerState \<Rightarrow> ArenaServer \<Rightarrow> ArenaServer" where
  "handlePlayerUpdate p g st s =
     broadcastToGame g (UpdateOut p st) (Some p) (updatePlayerState g p st s)"

definition handleEliminated :: "string \<Rightarrow> int \<Rightarrow> ArenaServer \<Rightarrow> ArenaServer" where
  "handleEliminated p g s =
     (let s1 = broadcastToGame g (EliminatedOut p) None s
      in case getGameState s1 g of
           None \<Rightarrow> s1
         | Some gm \<Rightarrow>
             if phase gm = Active
             then (let alivePlayers = filter alive (map snd (players gm))
                   in if length alivePlayers \<le> 1 \<and> length alivePlayers > 0
                      then (let w = hd alivePlayers
                            in broadcastToGame g (WinnerOut (Some (id_p w))) None
                                 (declareWinner g (id_p w) s1))
                      else s1)
             else s1)"

definition handleWinner :: "int \<Rightarrow> string \<Rightarrow> ArenaServer \<Rightarrow> ArenaServer" where
  "handleWinner g w s = broadcastToGame g (WinnerOut (Some w)) None (declareWinner g w s)"

fun handleMessage :: "string \<Rightarrow> int \<Rightarrow> InMsg \<Rightarrow> int \<Rightarrow> ArenaServer \<Rightarrow> ArenaServer" where
  "handleMessage p g Heartbeat now s = handleHeartbeat p g now s"
| "handleMessage p g MarkReady now s = handleMarkReady p g s"
| "handleMessage p g StartGame now s = handleStartGame p g now s"
| "handleMessage p g (Update st) now s = handlePlayerUpdate p g st s"
| "handleMessage p g Eliminated now s = handleEliminated p g s"
| "handleMessage p g (Winner w) now s = handleWinner g w s"
| "handleMessage p g (SetDeadline d) now s = s"
| "handleMessage p g Unknown now s = s"

section \<open>\<open>UnifiedServer\<close>: arena connections, auto-start and deadline\<close>

definition checkAutoStart :: "int \<Rightarrow> ArenaServer \<Rightarrow> ArenaServer" where
  "checkAutoStart g s =
     (if canStart (canStartGame s g) then snd (setTimeout (AutoStartTimer g) s) else s)"

definition startDeadlineMonitor :: "int \<Rightarrow> int \<Rightarrow> int \<Rightarrow> ArenaServer \<Rightarrow> ArenaServer" where
  "startDeadlineMonitor g deadline now s =
     (let s1 = (case map_of (gameDeadlineTimers s) g of
                  None \<Rightarrow> s
                | Some h \<Rightarrow> clearTimeout h s)
      in if deadline - now \<le> 0 then checkAutoStart g s1
         else (let (h, s2) = setTimeout (DeadlineTimer g) s1
               in s2\<lparr>gameDeadlineTimers := AList.update g h (gameDeadlineTimers s2)\<rparr>))"

definition handlePhase3Message :: "string \<Rightarrow> int \<Rightarrow> InMsg \<Rightarrow> int \<Rightarrow> ArenaServer \<Rightarrow> ArenaServer" where
  "handlePhase3Message p g msg now s =
     (case msg of
        SetDeadline d \<Rightarrow> startDeadlineMonitor g d now s
      | _ \<Rightarrow>
          (let s1 = handleMessage p g msg now s
           in if msg = MarkReady then checkAutoStart g s1 else s1))"

definition sendInitialGameState :: "nat \<Rightarrow> int \<Rightarrow> ArenaServer \<Rightarrow> ArenaServer" where
  "sendInitialGameState w g s =
     (case getGameState s g of
        None \<Rightarrow> s
      | Some gm \<Rightarrow>
          (let s1 = sendIfOpen w
                      (GameStateUpdate (phase gm) (countdownStartTime gm) (countdownDuration gm)
                         (length (readyPlayers gm)) (length (getGamePlayerIds s g))) s
           in if length (players gm) > 0 then sendIfOpen w (Sync (map snd (players gm))) s1
              else s1))"

text \<open>
  \<open>handlePhase3Connection\<close>: \<open>gameId\<close> is the result of \<open>parseInt\<close> (\<open>None\<close> is NaN) and
  \<open>playerId\<close> the query value (empty when missing); \<open>!gameId || !playerId\<close> rejects NaN, 0
  and the empty string.
\<close>

definition handlePhase3Connection ::
  "nat \<Rightarrow> int option \<Rightarrow> string \<Rightarrow> int \<Rightarrow> ArenaServer \<Rightarrow> ArenaServer" where
  "handlePhase3Connection w gid p now s =
     (case gid of
        None \<Rightarrow> closeSocket w s
      | Some g \<Rightarrow>
          if g = 0 \<or> p = [] then closeSocket w s
          else (let s1 = addConnection w p g now s;
                    s2 = addPlayer g p s1;
                    s3 = sendInitialGameState w g s2;
                    s4 = broadcastToGame g (PlayerConnected p) (Some p) s3
                in s4\<lparr>listeners := AList.update w (p, g) (listeners s4)\<rparr>))"

text \<open>The \<open>close\<close> handler of an arena socket.\<close>

definition handleClose :: "string \<Rightarrow> int \<Rightarrow> ArenaServer \<Rightarrow> ArenaServer" where
  "handleClose p g s =
     broadcastToGame g (PlayerDisconnected p) None (removePlayer g p (removeConnection p g s))"

subsection \<open>Timer callbacks\<close>

definition transitionToActive :: "int \<Rightarrow> int \<Rightarrow> ArenaServer \<Rightarrow> ArenaServer" where
  "transitionToActive g now s =
     (case getGameState s g of
        None \<Rightarrow> s
      | Some gm \<Rightarrow> broadcastGameState g (putGame g (gm\<lparr>phase := Active, startTime := Some now\<rparr>) s))"

definition autoStartCallback :: "int \<Rightarrow> int \<Rightarrow> ArenaServer \<Rightarrow> ArenaServer" where
  "autoStartCallback g now s =
     (let (r, s1) = startGame g now s in if success r then broadcastGameState g s1 else s1)"

fun runTimer :: "Timer \<Rightarrow> int \<Rightarrow> ArenaServer \<Rightarrow> ArenaServer" where
  "runTimer (CountdownTimer g) now s = transitionToActive g now s"
| "runTimer (AutoStartTimer g) now s = autoStartCallback g now s"
| "runTimer (DeadlineTimer g) now s = checkAutoStart g s"

subsection \<open>Events applied to the server, one at a time\<close>

text \<open>
  \<open>Connect\<close>: a new socket arrives on a path other than \<open>/battle\<close>.
  \<open>Message w m now\<close>: a frame parsed to \<open>m\<close> arrives on socket \<open>w\<close>.
  \<open>Close w\<close>: the \<open>close\<close> event of socket \<open>w\<close>.
  \<open>TimeoutFires h now\<close>: the event loop runs the timeout with handle \<open>h\<close>, if still armed.
  \<open>HealthCheck now\<close>: the 30 s interval of \<open>startHealthCheck\<close>.
  \<open>SocketGone w\<close>: the \<open>readyState\<close> of \<open>w\<close> leaves \<open>OPEN\<close> (the peer went away), before
  its \<open>close\<close> event is delivered.
\<close>

datatype Event =
    Connect "int option" string int
  | Message nat InMsg int
  | Close nat
  | TimeoutFires nat int
  | HealthCheck int
  | SocketGone nat

fun step :: "ArenaServer \<Rightarrow> Event \<Rightarrow> ArenaServer" where
  "step s (Connect gid p now) =
     handlePhase3Connection (nextSocket s) gid p now (s\<lparr>nextSocket := Suc (nextSocket s)\<rparr>)"
| "step s (Message w m now) =
     (case map_of (listeners s) w of
        None \<Rightarrow> s
      | Some (p, g) \<Rightarrow> handlePhase3Message p g m now s)"
| "step s (Close w) =
     (case map_of (listeners s) w of
        None \<Rightarrow> s
      | Some (p, g) \<Rightarrow>
          handleClose p g ((closeSocket w s)\<lparr>listeners := AList.delete w (listeners s)\<rparr>))"
| "step s (TimeoutFires h now) =
     (case map_of (timeouts s) h of
        None \<Rightarrow> s
      | Some cb \<Rightarrow> runTimer cb now (clearTimeout h s))"
| "step s (HealthCheck now) = checkStaleConnections now s"
| "step s (SocketGone w) = closeSocket w s"

definition run :: "ArenaServer \<Rightarrow> Event list \<Rightarrow> ArenaServer" where
  "run s es = foldl step s es"

section \<open>\<open>BattleManager\<close>\<close>

text \<open>
  The battle side shares no state with the arena side: a socket is handed to one of the two
  by its URL path.  \<open>BattleManager\<close> is the same class, statement for statement, in both
  versions of the unified server.
\<close>

datatype Status = BWaiting | BReady | BInProgress | BEnded

record BattleMove =
  playerId :: string
  move :: string
  round :: int
  submittedAt :: int

record BattleSession =
  challengeId :: string
  b_players :: "string list"
  b_connections :: "(string \<times> nat) list"
  moves :: "(int \<times> BattleMove list) list"
  status :: Status
  b_winner :: "string option"
  createdAt :: int

datatype BattleTimer = ReadyTimer string | CleanupTimer string

datatype BattleOut =
    PlayerJoined string nat "string option"
  | GameReady string "string list"
  | OpponentMoved string
  | RoundComplete int "(string \<times> string) list"
  | GameEnded string string
  | OpponentLeft string

datatype BattleIn = SubmitMove int string | GameEndedIn string | OtherIn

record BattleManager =
  battles :: "(string \<times> BattleSession) list"
  b_timeouts :: "(nat \<times> BattleTimer) list"
  b_nextTimeout :: nat
  b_nextSocket :: nat
  b_closedSockets :: "nat list"
  b_listeners :: "(nat \<times> string \<times> string) list"
  b_outbox :: "(nat \<times> BattleOut) list"

definition initialBattles :: BattleManager where
  "initialBattles = \<lparr>battles = [], b_timeouts = [], b_nextTimeout = 0, b_nextSocket = 0,
     b_closedSockets = [], b_listeners = [], b_outbox = []\<rparr>"

definition b_setTimeout :: "BattleTimer \<Rightarrow> BattleManager \<Rightarrow> BattleManager" where
  "b_setTimeout cb s =
     s\<lparr>b_timeouts := b_timeouts s @ [(b_nextTimeout s, cb)],
       b_nextTimeout := Suc (b_nextTimeout s)\<rparr>"

definition b_isOpen :: "BattleManager \<Rightarrow> nat \<Rightarrow> bool" where
  "b_isOpen s w = (w \<notin> set (b_closedSockets s))"

definition b_closeSocket :: "nat \<Rightarrow> BattleManager \<Rightarrow> BattleManager" where
  "b_closeSocket w s = s\<lparr>b_closedSockets := set_add w (b_closedSockets s)\<rparr>"

definition sendTo :: "nat \<Rightarrow> BattleOut \<Rightarrow> BattleManager \<Rightarrow> BattleManager" where
  "sendTo w m s = (if b_isOpen s w then s\<lparr>b_outbox := b_outbox s @ [(w, m)]\<rparr> else s)"

definition getBattle :: "BattleManager \<Rightarrow> string \<Rightarrow> BattleSession option" where
  "getBattle s cid = map_of (battles s) cid"

definition putBattle :: "string \<Rightarrow> BattleSession \<Rightarrow> BattleManager \<Rightarrow> BattleManager" where
  "putBattle cid b s = s\<lparr>battles := AList.update cid b (battles s)\<rparr>"

text \<open>The sockets \<open>broadcastToBattle\<close> sends to: \<open>pid !== exclude\<close>, then \<open>sendTo\<close>.\<close>

definition battleRecipients :: "BattleManager \<Rightarrow> BattleSession \<Rightarrow> string option \<Rightarrow> nat list" where
  "battleRecipients s b ex =
     map snd (filter (\<lambda>(pid, w). Some pid \<noteq> ex \<and> b_isOpen s w) (b_connections b))"

definition broadcastToBattle :: "string \<Rightarrow> BattleOut \<Rightarrow> string option \<Rightarrow> BattleManager \<Rightarrow> BattleManager" where
  "broadcastToBattle cid m ex s =
     (case getBattle s cid of
        None \<Rightarrow> s
      | Some b \<Rightarrow> s\<lparr>b_outbox := b_outbox s @ map (\<lambda>w. (w, m)) (battleRecipients s b ex)\<rparr>)"

definition newBattle :: "string \<Rightarrow> int \<Rightarrow> BattleSession" where
  "newBattle cid now = \<lparr>challengeId = cid, b_players = [], b_connections = [], moves = [],
     status = BWaiting, b_winner = None, createdAt = now\<rparr>"

definition handleConnection :: "nat \<Rightarrow> string \<Rightarrow> string \<Rightarrow> int \<Rightarrow> BattleManager \<Rightarrow> BattleManager" where
  "handleConnection w cid p now s =
     (let b0 = (case getBattle s cid of None \<Rightarrow> newBattle cid now | Some b \<Rightarrow> b);
          b1 = b0\<lparr>b_players := set_add p (b_players b0),
                   b_connections := AList.update p w (b_connections b0)\<rparr>;
          s1 = putBattle cid b1 s;
          s2 = sendTo w (PlayerJoined p (length (b_players b1)) (Some cid)) s1;
          s3 = broadcastToBattle cid (PlayerJoined p (length (b_players b1)) None) (Some p) s2;
          s4 = (if length (b_players b1) = 2 \<and> status b1 = BWaiting
                then b_setTimeout (ReadyTimer cid)
                       (broadcastToBattle cid (GameReady cid (b_players b1)) None
                          (putBattle cid (b1\<lparr>status := BReady\<rparr>) s3))
                else s3)
      in s4\<lparr>b_listeners := AList.update w (cid, p) (b_listeners s4)\<rparr>)"

text \<open>
  \<open>handleMessage\<close> of the battle manager.  The empty list for a new round is stored
  before the duplicate test, as in the source.
\<close>

definition handleBattleMessage ::
  "string \<Rightarrow> string \<Rightarrow> BattleIn \<Rightarrow> int \<Rightarrow> BattleManager \<Rightarrow> BattleManager" where
  "handleBattleMessage cid p msg now s =
     (case getBattle s cid of
        None \<Rightarrow> s
      | Some b \<Rightarrow>
          (case msg of
             SubmitMove r mv \<Rightarrow>
               (let b1 = (case map_of (moves b) r of
                            None \<Rightarrow> b\<lparr>moves := AList.update r [] (moves b)\<rparr>
                          | Some ms \<Rightarrow> b);
                    roundMoves = (case map_of (moves b1) r of None \<Rightarrow> [] | Some ms \<Rightarrow> ms)
                in if list_ex (\<lambda>m. playerId m = p) roundMoves then putBattle cid b1 s
                   else (let roundMoves' =
                               roundMoves @ [\<lparr>playerId = p, move = mv, round = r, submittedAt = now\<rparr>];
                             s1 = putBattle cid (b1\<lparr>moves := AList.update r roundMoves' (moves b1)\<rparr>) s;
                             s2 = broadcastToBattle cid (OpponentMoved p) (Some p) s1
                         in if length roundMoves' = 2
                            then broadcastToBattle cid
                                   (RoundComplete r (map (\<lambda>m. (playerId m, move m)) roundMoves'))
                                   None s2
                            else s2))
           | GameEndedIn w \<Rightarrow>
               b_setTimeout (CleanupTimer cid)
                 (broadcastToBattle cid (GameEnded w cid) None
                    (putBattle cid (b\<lparr>status := BEnded, b_winner := Some w\<rparr>) s))
           | OtherIn \<Rightarrow> s))"

definition cleanup :: "string \<Rightarrow> BattleManager \<Rightarrow> BattleManager" where
  "cleanup cid s =
     (case getBattle s cid of
        None \<Rightarrow> s
      | Some b \<Rightarrow>
          (fold (\<lambda>w s'. if b_isOpen s' w then b_closeSocket w s' else s')
                (map snd (b_connections b)) s)
          \<lparr>battles := AList.delete cid (battles s)\<rparr>)"

text \<open>
  \<open>handleDisconnect\<close>.  \<open>remaining\<close> is the first member of \<open>players\<close> other than the
  leaving peer; \<open>if (remaining)\<close> is false for \<open>undefined\<close> and for the empty string.
\<close>

definition handleDisconnect :: "string \<Rightarrow> string \<Rightarrow> BattleManager \<Rightarrow> BattleManager" where
  "handleDisconnect cid p s =
     (case getBattle s cid of
        None \<Rightarrow> s
      | Some b \<Rightarrow>
          (let b1 = b\<lparr>b_connections := AList.delete p (b_connections b)\<rparr>;
               s1 = putBattle cid b1 s;
               s2 = broadcastToBattle cid (OpponentLeft p) (Some p) s1;
               s3 = (if status b1 = BInProgress
                     then (case find (\<lambda>q. q \<noteq> p) (b_players b1) of
                             None \<Rightarrow> s2
                           | Some remaining \<Rightarrow>
                               if remaining = [] then s2
                               else broadcastToBattle cid (GameEnded remaining cid) None
                                      (putBattle cid (b1\<lparr>b_winner := Some remaining\<rparr>) s2))
                     else s2)
           in if length (b_connections b1) = 0 then cleanup cid s3 else s3))"

text \<open>\<open>handleBattleConnection\<close> of \<open>UnifiedServer\<close>: both query values must be non-empty.\<close>

definition handleBattleConnection ::
  "nat \<Rightarrow> string \<Rightarrow> string \<Rightarrow> int \<Rightarrow> BattleManager \<Rightarrow> BattleManager" where
  "handleBattleConnection w cid p now s =
     (if cid = [] \<or> p = [] then b_closeSocket w s else handleConnection w cid p now s)"

fun runBattleTimer :: "BattleTimer \<Rightarrow> BattleManager \<Rightarrow> BattleManager" where
  "runBattleTimer (ReadyTimer cid) s =
     (case getBattle s cid of
        None \<Rightarrow> s
      | Some b \<Rightarrow> putBattle cid (b\<lparr>status := BInProgress\<rparr>) s)"
| "runBattleTimer (CleanupTimer cid) s = cleanup cid s"

definition cleanupScan :: "int \<Rightarrow> BattleManager \<Rightarrow> BattleManager" where
  "cleanupScan now s =
     fold (\<lambda>(cid, b) s'. if now - createdAt b > 1800000 \<and> status b \<noteq> BInProgress
                          then cleanup cid s' else s')
          (battles s) s"

datatype BattleEvent =
    BConnect string string int
  | BMessage nat BattleIn int
  | BClose nat
  | BTimeoutFires nat
  | BCleanupScan int
  | BSocketGone nat

fun b_step :: "BattleManager \<Rightarrow> BattleEvent \<Rightarrow> BattleManager" where
  "b_step s (BConnect cid p now) =
     handleBattleConnection (b_nextSocket s) cid p now (s\<lparr>b_nextSocket := Suc (b_nextSocket s)\<rparr>)"
| "b_step s (BMessage w m now) =
     (case map_of (b_listeners s) w of
        None \<Rightarrow> s
      | Some (cid, p) \<Rightarrow> handleBattleMessage cid p m now s)"
| "b_step s (BClose w) =
     (case map_of (b_listeners s) w of
        None \<Rightarrow> s
      | Some (cid, p) \<Rightarrow>
          handleDisconnect cid p
            ((b_closeSocket w s)\<lparr>b_listeners := AList.delete w (b_listeners s)\<rparr>))"
| "b_step s (BTimeoutFires h) =
     (case map_of (b_timeouts s) h of
        None \<Rightarrow> s
      | Some cb \<Rightarrow> runBattleTimer cb (s\<lparr>b_timeouts := AList.delete h (b_timeouts s)\<rparr>))"
| "b_step s (BCleanupScan now) = cleanupScan now s"
| "b_step s (BSocketGone w) = b_closeSocket w s"

definition b_run :: "BattleManager \<Rightarrow> BattleEvent list \<Rightarrow> BattleManager" where
  "b_run s es = foldl b_step s es"

section \<open>The variant of the unified server in src/unnamed/part_000\<close>

text \<open>
  This variant has the same \<open>GameSession\<close> and the same \<open>getOrCreateGame\<close>, but its
  \<open>canStartGame\<close> asks for two ready peers, its \<open>UnifiedServer\<close> keeps the sockets itself
  (\<open>connections\<close>, by connection id) and its \<open>broadcastGameState\<close> reports
  \<open>game.players.size\<close> as \<open>totalPlayers\<close>.  Only the path of a \<open>mark_ready\<close> frame is
  modelled.  The functions carry the suffix \<open>_clean\<close>.
\<close>

definition canStartGame_clean :: "ArenaServer \<Rightarrow> int \<Rightarrow> bool \<times> nat" where
  "canStartGame_clean s g =
     (case getGameState s g of
        None \<Rightarrow> (False, 0)
      | Some gm \<Rightarrow> (length (readyPlayers gm) \<ge> 2, length (readyPlayers gm)))"

definition broadcastGameState_clean :: "int \<Rightarrow> ArenaServer \<Rightarrow> ArenaServer" where
  "broadcastGameState_clean g s =
     (case getGameState s g of
        None \<Rightarrow> s
      | Some gm \<Rightarrow>
          fold (\<lambda>w. sendIfOpen w
                  (GameStateUpdate (phase gm) (countdownStartTime gm) (countdownDuration gm)
                     (length (readyPlayers gm)) (length (players gm))))
               (map (ws \<circ> snd) (filter (\<lambda>(k, c). fst k = g) (connections s))) s)"

definition markPlayerReady_clean :: "int \<Rightarrow> string \<Rightarrow> ArenaServer \<Rightarrow> ArenaServer" where
  "markPlayerReady_clean g p s =
     (let s1 = getOrCreateGame g s
      in case getGameState s1 g of
           None \<Rightarrow> s1
         | Some gm \<Rightarrow>
             broadcastGameState_clean g
               (putGame g (gm\<lparr>readyPlayers := set_add p (readyPlayers gm)\<rparr>) s1))"

definition checkAutoStart_clean :: "int \<Rightarrow> ArenaServer \<Rightarrow> ArenaServer" where
  "checkAutoStart_clean g s =
     (if fst (canStartGame_clean s g) then snd (setTimeout (AutoStartTimer g) s) else s)"

definition handleMarkReady_clean :: "string \<Rightarrow> int \<Rightarrow> ArenaServer \<Rightarrow> ArenaServer" where
  "handleMarkReady_clean p g s =
     checkAutoStart_clean g (broadcastGameState_clean g (markPlayerReady_clean g p s))"

section \<open>The stand-alone arena server (src/server.js): \<open>handleMessage\<close>\<close>

text \<open>
  \<open>server.js\<close> keeps a \<open>GameRoom\<close> per game id and stores \<open>playerId\<close>, \<open>gameId\<close> and
  \<open>isAlive\<close> on the socket object itself.  \<open>handleMessage(ws, gameRoom, message)\<close> is
  modelled on a world made of the room, the attributes of the sockets and the frames sent.
  The stored \<open>state\<close> of a player is \<open>null\<close> until the first \<open>update\<close>; the spread
  \<open>{...state, alive: false}\<close> of \<open>null\<close> is an object with the one field \<open>alive\<close>.
  \<open>ws.send\<close> delivers a frame only on an open socket.
\<close>

datatype JsState = NoState | AliveOnly bool | FullState PlayerState

fun spreadNotAlive :: "JsState \<Rightarrow> JsState" where
  "spreadNotAlive NoState = AliveOnly False"
| "spreadNotAlive (AliveOnly b) = AliveOnly False"
| "spreadNotAlive (FullState st) = FullState (st\<lparr>alive := False\<rparr>)"

text \<open>\<open>state.alive !== false\<close>\<close>

fun aliveNotFalse :: "JsState \<Rightarrow> bool" where
  "aliveNotFalse NoState = True"
| "aliveNotFalse (AliveOnly b) = b"
| "aliveNotFalse (FullState st) = alive st"

record RoomPlayer =
  rp_id :: string
  rp_ws :: nat
  rp_state :: JsState
  lastUpdate :: int
  rp_alive :: bool

record GameRoom =
  room_gameId :: string
  room_players :: "(string \<times> RoomPlayer) list"
  clients :: "nat list"
  room_createdAt :: int

record WsAttrs =
  ws_gameId :: string
  ws_playerId :: string
  ws_isAlive :: bool
  ws_open :: bool

datatype JsOut =
    HeartbeatAck int
  | JsUpdateOut string PlayerState int
  | JsEliminatedOut string int
  | JsWinnerOut string string int

datatype JsIn = JsHeartbeat | JsUpdate "PlayerState option" | JsEliminated | JsWinner string | JsUnknown

record JsWorld =
  room :: GameRoom
  sockets :: "(nat \<times> WsAttrs) list"
  sent :: "(nat \<times> JsOut) list"

definition js_updatePlayerState :: "string \<Rightarrow> JsState \<Rightarrow> int \<Rightarrow> GameRoom \<Rightarrow> GameRoom" where
  "js_updatePlayerState p st now r =
     (case map_of (room_players r) p of
        None \<Rightarrow> r
      | Some pl \<Rightarrow>
          r\<lparr>room_players :=
              AList.update p (pl\<lparr>rp_state := st, lastUpdate := now, rp_alive := aliveNotFalse st\<rparr>)
                (room_players r)\<rparr>)"

definition js_receives :: "JsWorld \<Rightarrow> string option \<Rightarrow> nat \<Rightarrow> bool" where
  "js_receives wd ex w =
     (case map_of (sockets wd) w of
        None \<Rightarrow> False
      | Some a \<Rightarrow>
          ws_open a \<and> (case ex of None \<Rightarrow> True | Some e \<Rightarrow> e = [] \<or> ws_playerId a \<noteq> e))"

definition js_broadcast :: "JsOut \<Rightarrow> string option \<Rightarrow> JsWorld \<Rightarrow> JsWorld" where
  "js_broadcast m ex wd =
     wd\<lparr>sent := sent wd @ map (\<lambda>w. (w, m)) (filter (js_receives wd ex) (clients (room wd)))\<rparr>"

definition js_send :: "nat \<Rightarrow> JsOut \<Rightarrow> JsWorld \<Rightarrow> JsWorld" where
  "js_send w m wd =
     (case map_of (sockets wd) w of
        None \<Rightarrow> wd
      | Some a \<Rightarrow> if ws_open a then wd\<lparr>sent := sent wd @ [(w, m)]\<rparr> else wd)"

definition js_handleMessage :: "nat \<Rightarrow> JsIn \<Rightarrow> int \<Rightarrow> JsWorld \<Rightarrow> JsWorld" where
  "js_handleMessage w msg now wd =
     (case map_of (sockets wd) w of
        None \<Rightarrow> wd
      | Some a \<Rightarrow>
          (case msg of
             JsHeartbeat \<Rightarrow>
               js_send w (HeartbeatAck now)
                 (wd\<lparr>sockets := AList.update w (a\<lparr>ws_isAlive := True\<rparr>) (sockets wd)\<rparr>)
           | JsUpdate None \<Rightarrow> wd
           | JsUpdate (Some st) \<Rightarrow>
               js_broadcast (JsUpdateOut (ws_playerId a) st now) (Some (ws_playerId a))
                 (wd\<lparr>room := js_updatePlayerState (ws_playerId a) (FullState st) now (room wd)\<rparr>)
           | JsEliminated \<Rightarrow>
               (let cur = (case map_of (room_players (room wd)) (ws_playerId a) of
                             None \<Rightarrow> NoState
                           | Some pl \<Rightarrow> rp_state pl)
                in js_broadcast (JsEliminatedOut (ws_playerId a) now) None
                     (wd\<lparr>room := js_updatePlayerState (ws_playerId a) (spreadNotAlive cur) now
                                    (room wd)\<rparr>))
           | JsWinner wid \<Rightarrow> js_broadcast (JsWinnerOut wid (ws_playerId a) now) None wd
           | JsUnknown \<Rightarrow> wd))"

section \<open>Predicates and example states used by the properties\<close>

text \<open>The moves recorded for a round (\<open>battle.moves.get(round)\<close>, empty when absent).\<close>

definition movesOf :: "BattleSession \<Rightarrow> int \<Rightarrow> BattleMove list" where
  "movesOf b r = (case map_of (moves b) r of None \<Rightarrow> [] | Some ms \<Rightarrow> ms)"

definition oneMovePerPeer :: "BattleSession \<Rightarrow> bool" where
  "oneMovePerPeer b = (\<forall>r. distinct (map playerId (movesOf b r)))"

definition ledgerOk :: "BattleManager \<Rightarrow> bool" where
  "ledgerOk s = (\<forall>cid b. getBattle s cid = Some b \<longrightarrow> oneMovePerPeer b)"

text \<open>
  Two peers have joined challenge \<open>x\<close> and the one-second hold has passed: the battle is
  full and in progress.
\<close>

definition fullBattle :: BattleManager where
  "fullBattle =
     b_run initialBattles [BConnect ''x'' ''A'' 0, BConnect ''x'' ''B'' 1, BTimeoutFires 0]"

text \<open>The same battle after \<open>A\<close> has submitted \<open>rock\<close> for round 0.\<close>

definition battleAfterMove :: BattleManager where
  "battleAfterMove = b_step fullBattle (BMessage 0 (SubmitMove 0 ''rock'') 5)"

text \<open>The order of the phases.\<close>

fun phaseRank :: "Phase \<Rightarrow> nat" where
  "phaseRank Waiting = 0"
| "phaseRank Countdown = 1"
| "phaseRank Active = 2"
| "phaseRank Ended = 3"

text \<open>
  The invariant of the countdown timer: every armed countdown timeout is the one recorded
  in \<open>gameTimers\<close> for its game, and that game exists and is in the countdown phase; and a
  session with a winner is in the ended phase.
\<close>

definition timersOk :: "ArenaServer \<Rightarrow> bool" where
  "timersOk s =
     ((\<forall>h g. (h, CountdownTimer g) \<in> set (timeouts s) \<longrightarrow>
         map_of (gameTimers s) g = Some h \<and>
         (\<exists>gm. getGameState s g = Some gm \<and> phase gm = Countdown))
      \<and> (\<forall>g gm. getGameState s g = Some gm \<longrightarrow> winner gm \<noteq> None \<longrightarrow> phase gm = Ended))"

text \<open>
  Two ways a handler can act on the table of sessions.  It \<open>advances\<close> the table when every
  session is still there afterwards, in the same or a later phase (it may create sessions);
  it \<open>recedes\<close> when every session left afterwards was there before, in the same phase (it
  may delete sessions).
\<close>

definition advances :: "ArenaServer \<Rightarrow> ArenaServer \<Rightarrow> bool" where
  "advances s s' =
     (\<forall>g gm. getGameState s g = Some gm \<longrightarrow>
        (\<exists>gm'. getGameState s' g = Some gm' \<and> phaseRank (phase gm) \<le> phaseRank (phase gm')))"

definition recedes :: "ArenaServer \<Rightarrow> ArenaServer \<Rightarrow> bool" where
  "recedes s s' =
     (\<forall>g gm'. getGameState s' g = Some gm' \<longrightarrow>
        (\<exists>gm. getGameState s g = Some gm \<and> phase gm' = phase gm))"

text \<open>
  The session of game \<open>g\<close> exists in \<open>s\<close> and after every event of the list: it is the
  same session object throughout, never deleted in between.
\<close>

fun persists :: "int \<Rightarrow> ArenaServer \<Rightarrow> Event list \<Rightarrow> bool" where
  "persists g s [] = (getGameState s g \<noteq> None)"
| "persists g s (e # es) = (getGameState s g \<noteq> None \<and> persists g (step s e) es)"

definition rankOf :: "ArenaServer \<Rightarrow> int \<Rightarrow> nat" where
  "rankOf s g = (case getGameState s g of None \<Rightarrow> 0 | Some gm \<Rightarrow> phaseRank (phase gm))"

definition countdownArmed :: "ArenaServer \<Rightarrow> int \<Rightarrow> bool" where
  "countdownArmed s g = list_ex (\<lambda>(h, cb). cb = CountdownTimer g) (timeouts s)"

text \<open>
  Example runs of the arena server.  \<open>lobby\<close>: alice and bob have connected to game 7.
  \<open>countdownGame\<close>: both have marked ready and the first auto-start timeout has fired.
  \<open>wonGame\<close>: bob has then sent a \<open>winner\<close> frame naming himself.
\<close>

definition lobby :: ArenaServer where
  "lobby = run initialServer [Connect (Some 7) ''alice'' 0, Connect (Some 7) ''bob'' 1]"

definition countdownGame :: ArenaServer where
  "countdownGame = run lobby [Message 0 MarkReady 2, Message 1 MarkReady 3, TimeoutFires 0 1002]"

definition wonGame :: ArenaServer where
  "wonGame = step countdownGame (Message 1 (Winner ''bob'') 2000)"

text \<open>The keys of the roster \<open>players\<close> of a game, in insertion order; none when there is no session.\<close>

definition roster :: "ArenaServer \<Rightarrow> int \<Rightarrow> string list" where
  "roster s g = (case getGameState s g of None \<Rightarrow> [] | Some gm \<Rightarrow> map fst (players gm))"

definition aliceState :: PlayerState where
  "aliceState = \<lparr>id_p = ''alice'', x = 10, y = 20, hp = 100, maxHp = 100, alive = True,
     hasShield = False, hasSpeed = False, name = ''Alice'', color = ''red'', radius = 5,
     vx = 0, vy = 0\<rparr>"

definition bobState :: PlayerState where
  "bobState = \<lparr>id_p = ''bob'', x = 30, y = 40, hp = 100, maxHp = 100, alive = True,
     hasShield = False, hasSpeed = False, name = ''Bob'', color = ''blue'', radius = 5,
     vx = 0, vy = 0\<rparr>"

text \<open>
  \<open>activeGame\<close>: alice and bob have each sent one \<open>update\<close> (both alive) and marked ready;
  the auto-start and then the countdown have fired, so game 7 is active.
\<close>

definition activeGame :: ArenaServer where
  "activeGame =
     run lobby [Message 0 (Update aliceState) 2, Message 1 (Update bobState) 3,
                Message 0 MarkReady 4, Message 1 MarkReady 5,
                TimeoutFires 0 1004, TimeoutFires 2 16004]"

text \<open>
  The winner check of \<open>handleEliminated\<close>: the first of the stored states with a true
  \<open>alive\<close> flag, when \<open>alivePlayers.length <= 1 && alivePlayers.length > 0\<close>.
\<close>

definition soleSurvivor :: "GameSession \<Rightarrow> PlayerState option" where
  "soleSurvivor gm =
     (let alivePlayers = filter alive (map snd (players gm))
      in if length alivePlayers \<le> 1 \<and> length alivePlayers > 0 then Some (hd alivePlayers)
         else None)"

text \<open>The step from \<open>s\<close> to \<open>s'\<close> armed one new timeout, the auto-start of game \<open>g\<close>.\<close>

definition autoStartScheduled :: "ArenaServer \<Rightarrow> ArenaServer \<Rightarrow> int \<Rightarrow> bool" where
  "autoStartScheduled s s' g = (timeouts s' = timeouts s @ [(nextTimeout s, AutoStartTimer g)])"

text \<open>The session \<open>getOrCreateGame\<close> returns: the stored one, or a new one in the waiting phase.\<close>

definition sessionOrNew :: "ArenaServer \<Rightarrow> int \<Rightarrow> GameSession" where
  "sessionOrNew s g = (case getGameState s g of None \<Rightarrow> newGame g | Some gm \<Rightarrow> gm)"

text \<open>
  \<open>emptiedLobby\<close>: in the lobby, the socket of alice has closed.  The roster was empty, so
  the session of game 7 is deleted, while bob is still connected.
\<close>

definition emptiedLobby :: ArenaServer where
  "emptiedLobby = step lobby (Close 0)"

text \<open>A room of \<open>server.js\<close> with alice on socket 0 and bob on socket 1, both open.\<close>

definition jsWorld :: JsWorld where
  "jsWorld =
     \<lparr>room = \<lparr>room_gameId = ''7'',
               room_players =
                 [(''alice'', \<lparr>rp_id = ''alice'', rp_ws = 0, rp_state = FullState aliceState,
                               lastUpdate = 2, rp_alive = True\<rparr>),
                  (''bob'', \<lparr>rp_id = ''bob'', rp_ws = 1, rp_state = FullState bobState,
                             lastUpdate = 3, rp_alive = True\<rparr>)],
               clients = [0, 1], room_createdAt = 0\<rparr>,
      sockets = [(0, \<lparr>ws_gameId = ''7'', ws_playerId = ''alice'', ws_isAlive = False, ws_open = True\<rparr>),
                 (1, \<lparr>ws_gameId = ''7'', ws_playerId = ''bob'', ws_isAlive = False, ws_open = True\<rparr>)],
      sent = []\<rparr>"

section \<open>Properties of the battle manager\<close>

lemmas battle_defs = b_run_def initialBattles_def handleBattleConnection_def handleConnection_def
  getBattle_def putBattle_def newBattle_def sendTo_def broadcastToBattle_def battleRecipients_def
  b_isOpen_def b_closeSocket_def b_setTimeout_def set_add_def handleBattleMessage_def
  handleDisconnect_def cleanup_def cleanupScan_def

lemma fullBattle_eq:
  "fullBattle =
     \<lparr>battles =
        [(''x'',
          \<lparr>challengeId = ''x'', b_players = [''A'', ''B''],
             b_connections = [(''A'', 0), (''B'', 1)], moves = [],
             status = BInProgress, b_winner = None, createdAt = 0\<rparr>)],
      b_timeouts = [], b_nextTimeout = 1, b_nextSocket = 2, b_closedSockets = [],
      b_listeners = [(0, ''x'', ''A''), (1, ''x'', ''B'')],
      b_outbox =
        [(0, PlayerJoined ''A'' 1 (Some ''x'')), (1, PlayerJoined ''B'' 2 (Some ''x'')),
         (0, PlayerJoined ''B'' 2 None), (0, GameReady ''x'' [''A'', ''B'']),
         (1, GameReady ''x'' [''A'', ''B''])]\<rparr>"
  unfolding fullBattle_def by (simp add: battle_defs)

subsection \<open>Frame lemmas: what leaves the table of battles alone\<close>

lemma battles_sendTo [simp]: "battles (sendTo w m s) = battles s"
  by (simp add: sendTo_def)

lemma battles_broadcast [simp]: "battles (broadcastToBattle cid m ex s) = battles s"
  by (simp add: broadcastToBattle_def split: option.splits)

lemma battles_setTimeout [simp]: "battles (b_setTimeout cb s) = battles s"
  by (simp add: b_setTimeout_def)

lemma battles_closeSocket [simp]: "battles (b_closeSocket w s) = battles s"
  by (simp add: b_closeSocket_def)

lemma getBattle_putBattle [simp]:
  "getBattle (putBattle cid b s) cid' = (if cid' = cid then Some b else getBattle s cid')"
  by (simp add: getBattle_def putBattle_def update_conv')

lemma getBattle_same_table: "battles s' = battles s \<Longrightarrow> getBattle s' = getBattle s"
  by (simp add: getBattle_def fun_eq_iff)

lemma getBattle_sendTo [simp]: "getBattle (sendTo w m s) = getBattle s"
  by (rule getBattle_same_table) simp

lemma getBattle_broadcast [simp]: "getBattle (broadcastToBattle cid m ex s) = getBattle s"
  by (rule getBattle_same_table) simp

lemma getBattle_setTimeout [simp]: "getBattle (b_setTimeout cb s) = getBattle s"
  by (rule getBattle_same_table) simp

lemma getBattle_closeSocket [simp]: "getBattle (b_closeSocket w s) = getBattle s"
  by (rule getBattle_same_table) simp

lemma getBattle_listeners [simp]: "getBattle (s\<lparr>b_listeners := l\<rparr>) = getBattle s"
  by (rule getBattle_same_table) simp

lemma getBattle_timeouts [simp]: "getBattle (s\<lparr>b_timeouts := l\<rparr>) = getBattle s"
  by (rule getBattle_same_table) simp

lemma getBattle_nextSocket [simp]: "getBattle (s\<lparr>b_nextSocket := n\<rparr>) = getBattle s"
  by (rule getBattle_same_table) simp

lemma getBattle_cleanup [simp]:
  "getBattle (cleanup cid s) cid' = (if cid' = cid then None else getBattle s cid')"
  by (simp add: cleanup_def getBattle_def delete_conv' split: option.splits)

subsection \<open>The move ledger\<close>

lemma movesOf_update:
  "movesOf (b\<lparr>moves := AList.update r ms (moves b)\<rparr>) r' = (if r' = r then ms else movesOf b r')"
  by (simp add: movesOf_def update_conv')

lemma oneMovePerPeer_moves_eq: "moves b' = moves b \<Longrightarrow> oneMovePerPeer b' = oneMovePerPeer b"
  by (simp add: oneMovePerPeer_def movesOf_def)

lemma oneMovePerPeer_append:
  "oneMovePerPeer b \<Longrightarrow> p \<notin> set (map playerId (movesOf b r)) \<Longrightarrow>
   oneMovePerPeer (b\<lparr>moves := AList.update r
      (movesOf b r @ [\<lparr>playerId = p, move = mv, round = r, submittedAt = now\<rparr>]) (moves b)\<rparr>)"
  by (simp add: oneMovePerPeer_def movesOf_update)

lemma getBattle_handleConnection:
  "getBattle (handleConnection w cid p now s) cid' = Some b' \<Longrightarrow>
   (cid' \<noteq> cid \<and> getBattle s cid' = Some b') \<or>
   (cid' = cid \<and> moves b' = (case getBattle s cid of None \<Rightarrow> [] | Some b \<Rightarrow> moves b))"
  by (auto simp: handleConnection_def Let_def newBattle_def split: if_splits option.splits)

lemma ledgerOk_handleConnection: "ledgerOk s \<Longrightarrow> ledgerOk (handleConnection w cid p now s)"
  unfolding ledgerOk_def
  apply (intro allI impI)
  apply (drule getBattle_handleConnection)
  apply (auto simp: oneMovePerPeer_def movesOf_def split: option.splits)
  done

lemma getBattle_handleBattleMessage_other:
  "cid' \<noteq> cid \<Longrightarrow> getBattle (handleBattleMessage cid p msg now s) cid' = getBattle s cid'"
  by (simp add: handleBattleMessage_def Let_def split: option.splits BattleIn.splits)

text \<open>The battle after a \<open>submit_move\<close>: unchanged for a duplicate, one record longer otherwise.\<close>

lemma submit_cases:
  assumes "getBattle s cid = Some b"
  shows "getBattle (handleBattleMessage cid p (SubmitMove r mv) now s) cid =
     Some (if p \<in> set (map playerId (movesOf b r))
           then b
           else b\<lparr>moves := AList.update r
                  (movesOf b r @ [\<lparr>playerId = p, move = mv, round = r, submittedAt = now\<rparr>])
                  (moves b)\<rparr>)"
proof (cases "map_of (moves b) r")
  case None
  then show ?thesis using assms
    by (simp add: handleBattleMessage_def Let_def movesOf_def update_conv')
next
  case (Some ms)
  then show ?thesis using assms
    by (auto simp: handleBattleMessage_def Let_def movesOf_def list_ex_iff)
qed

lemma ledgerOk_handleBattleMessage:
  assumes "ledgerOk s"
  shows "ledgerOk (handleBattleMessage cid p msg now s)"
  unfolding ledgerOk_def
proof (intro allI impI)
  fix cid' b'
  assume g: "getBattle (handleBattleMessage cid p msg now s) cid' = Some b'"
  show "oneMovePerPeer b'"
  proof (cases "cid' = cid")
    case False
    with g assms show ?thesis by (simp add: getBattle_handleBattleMessage_other ledgerOk_def)
  next
    case True
    show ?thesis
    proof (cases "getBattle s cid")
      case None
      with g True show ?thesis by (simp add: handleBattleMessage_def)
    next
      case (Some b)
      with assms have ok: "oneMovePerPeer b" by (simp add: ledgerOk_def)
      show ?thesis
      proof (cases msg)
        case (SubmitMove r mv)
        with g True submit_cases[OF Some, of p r mv now] ok show ?thesis
          by (auto simp: oneMovePerPeer_append split: if_splits)
      next
        case (GameEndedIn w)
        with g True Some ok show ?thesis
          by (auto simp: handleBattleMessage_def oneMovePerPeer_def movesOf_def)
      next
        case OtherIn
        with g True Some ok show ?thesis by (simp add: handleBattleMessage_def)
      qed
    qed
  qed
qed

lemma ledgerOk_cleanup: "ledgerOk s \<Longrightarrow> ledgerOk (cleanup cid s)"
  by (auto simp: ledgerOk_def split: if_splits)

lemma getBattle_handleDisconnect:
  "getBattle (handleDisconnect cid p s) cid' = Some b' \<Longrightarrow>
   \<exists>b. getBattle s cid' = Some b \<and> moves b' = moves b \<and> status b' = status b"
  by (auto simp: handleDisconnect_def Let_def split: option.splits if_splits)

lemma ledgerOk_handleDisconnect: "ledgerOk s \<Longrightarrow> ledgerOk (handleDisconnect cid p s)"
  unfolding ledgerOk_def
  by (metis getBattle_handleDisconnect oneMovePerPeer_moves_eq)

lemma ledgerOk_runBattleTimer: "ledgerOk s \<Longrightarrow> ledgerOk (runBattleTimer cb s)"
proof (cases cb)
  case (ReadyTimer cid)
  assume "ledgerOk s"
  then show ?thesis using ReadyTimer
    by (auto simp: ledgerOk_def oneMovePerPeer_def movesOf_def split: option.splits if_splits)
next
  case (CleanupTimer cid)
  assume "ledgerOk s"
  then show ?thesis using CleanupTimer by (simp add: ledgerOk_cleanup)
qed

lemma ledgerOk_fold_cleanup:
  "ledgerOk s \<Longrightarrow> ledgerOk (fold (\<lambda>(cid, b) s'. if P cid b then cleanup cid s' else s') xs s)"
  by (induction xs arbitrary: s) (auto simp: ledgerOk_cleanup)

lemma ledgerOk_step: "ledgerOk s \<Longrightarrow> ledgerOk (b_step s e)"
proof (cases e)
  case (BConnect cid p now)
  assume "ledgerOk s"
  then have "ledgerOk (s\<lparr>b_nextSocket := Suc (b_nextSocket s)\<rparr>)" by (simp add: ledgerOk_def)
  moreover have "ledgerOk (b_closeSocket w s')" if "ledgerOk s'" for w s'
    using that by (simp add: ledgerOk_def)
  ultimately show ?thesis using BConnect
    by (simp add: handleBattleConnection_def ledgerOk_handleConnection)
next
  case (BMessage w m now)
  assume "ledgerOk s"
  then show ?thesis using BMessage
    by (auto simp: ledgerOk_handleBattleMessage split: option.splits)
next
  case (BClose w)
  assume ok: "ledgerOk s"
  then have "ledgerOk ((b_closeSocket w s)\<lparr>b_listeners := AList.delete w (b_listeners s)\<rparr>)"
    by (simp add: ledgerOk_def)
  then show ?thesis using BClose ok
    by (auto simp: ledgerOk_handleDisconnect split: option.splits)
next
  case (BTimeoutFires h)
  assume ok: "ledgerOk s"
  then have "ledgerOk (s\<lparr>b_timeouts := AList.delete h (b_timeouts s)\<rparr>)"
    by (simp add: ledgerOk_def)
  then show ?thesis using BTimeoutFires ok
    by (auto simp: ledgerOk_runBattleTimer split: option.splits)
next
  case (BCleanupScan now)
  assume "ledgerOk s"
  then show ?thesis using BCleanupScan by (simp add: cleanupScan_def ledgerOk_fold_cleanup)
next
  case (BSocketGone w)
  assume "ledgerOk s"
  then show ?thesis using BSocketGone by (simp add: ledgerOk_def)
qed

lemma ledgerOk_run: "ledgerOk s \<Longrightarrow> ledgerOk (b_run s es)"
  unfolding b_run_def by (induction es arbitrary: s) (auto simp: ledgerOk_step)

lemma ledgerOk_initial: "ledgerOk initialBattles"
  by (simp add: ledgerOk_def initialBattles_def getBattle_def)

lemma duplicate_ignored:
  assumes "getBattle s cid = Some b" and "p \<in> set (map playerId (movesOf b r))"
  shows "handleBattleMessage cid p (SubmitMove r mv) now s = s"
  using assms
  by (auto simp: handleBattleMessage_def movesOf_def Let_def list_ex_iff putBattle_def
        getBattle_def update_triv split: option.splits)

lemma distinct_count: "distinct (map f xs) \<Longrightarrow> length (filter (\<lambda>m. f m = p) xs) \<le> 1"
proof (induction xs)
  case Nil
  show ?case by simp
next
  case (Cons a xs)
  show ?case
  proof (cases "f a = p")
    case True
    with Cons.prems have "p \<notin> f ` set xs" by simp
    then have "\<forall>m\<in>set xs. f m \<noteq> p" by blast
    then have "filter (\<lambda>m. f m = p) xs = []" by (simp add: filter_empty_conv)
    with True show ?thesis by simp
  next
    case False
    with Cons show ?thesis by simp
  qed
qed

text \<open>
  C8.  In every state the battle manager reaches from its initial state, by any sequence of
  connections, frames, socket closes, timer firings and cleanup scans, the list recorded for
  a round holds at most one \<open>BattleMove\<close> of any peer.  And in any state, a \<open>submit_move\<close>
  from a peer that already has a move in that round returns the state as it was: the ledger
  and the frames sent are unchanged.
\<close>

theorem one_move_per_peer_per_round:
  "(\<forall>cid b r p. getBattle (b_run initialBattles es) cid = Some b \<longrightarrow>
       length (filter (\<lambda>m. playerId m = p) (movesOf b r)) \<le> 1)
   \<and> (\<forall>s cid b r p mv now.
         getBattle s cid = Some b \<longrightarrow> p \<in> set (map playerId (movesOf b r)) \<longrightarrow>
         handleBattleMessage cid p (SubmitMove r mv) now s = s)"
proof (intro conjI allI impI)
  fix cid b r p
  assume "getBattle (b_run initialBattles es) cid = Some b"
  moreover have "ledgerOk (b_run initialBattles es)"
    by (rule ledgerOk_run) (rule ledgerOk_initial)
  ultimately have "distinct (map playerId (movesOf b r))"
    by (simp add: ledgerOk_def oneMovePerPeer_def)
  then show "length (filter (\<lambda>m. playerId m = p) (movesOf b r)) \<le> 1"
    by (rule distinct_count)
next
  fix s cid b r p mv now
  assume "getBattle s cid = Some b" and "p \<in> set (map playerId (movesOf b r))"
  then show "handleBattleMessage cid p (SubmitMove r mv) now s = s"
    by (rule duplicate_ignored)
qed

lemma battleAfterMove_eq:
  "battleAfterMove =
     fullBattle\<lparr>battles :=
        [(''x'',
          \<lparr>challengeId = ''x'', b_players = [''A'', ''B''],
             b_connections = [(''A'', 0), (''B'', 1)],
             moves = [(0, [\<lparr>playerId = ''A'', move = ''rock'', round = 0, submittedAt = 5\<rparr>])],
             status = BInProgress, b_winner = None, createdAt = 0\<rparr>)],
       b_outbox := b_outbox fullBattle @ [(1, OpponentMoved ''A'')]\<rparr>"
  unfolding battleAfterMove_def by (simp add: fullBattle_eq battle_defs)

theorem one_move_per_peer_per_round_witness:
  "map_option (\<lambda>b. map playerId (movesOf b 0)) (getBattle battleAfterMove ''x'') = Some [''A'']
   \<and> handleBattleMessage ''x'' ''A'' (SubmitMove 0 ''paper'') 9 battleAfterMove = battleAfterMove
   \<and> map_option (\<lambda>b. length (filter (\<lambda>m. playerId m = ''A'') (movesOf b 0)))
        (getBattle (b_run initialBattles
           [BConnect ''x'' ''A'' 0, BConnect ''x'' ''B'' 1, BTimeoutFires 0,
            BMessage 0 (SubmitMove 0 ''rock'') 5, BMessage 0 (SubmitMove 0 ''paper'') 9]) ''x'')
      = Some 1"
proof -
  let ?b = "\<lparr>challengeId = ''x'', b_players = [''A'', ''B''],
             b_connections = [(''A'', 0), (''B'', 1)],
             moves = [(0, [\<lparr>playerId = ''A'', move = ''rock'', round = 0, submittedAt = 5\<rparr>])],
             status = BInProgress, b_winner = None, createdAt = 0\<rparr>"
  have g: "getBattle battleAfterMove ''x'' = Some ?b"
    by (simp add: battleAfterMove_eq getBattle_def)
  have m: "''A'' \<in> set (map playerId (movesOf ?b 0))"
    by (simp add: movesOf_def)
  have dup: "handleBattleMessage ''x'' ''A'' (SubmitMove 0 ''paper'') 9 battleAfterMove
               = battleAfterMove"
    using one_move_per_peer_per_round [of "[]"] g m by blast
  have l: "map_of (b_listeners battleAfterMove) 0 = Some (''x'', ''A'')"
    by (simp add: battleAfterMove_eq fullBattle_eq)
  have "b_run initialBattles
             [BConnect ''x'' ''A'' 0, BConnect ''x'' ''B'' 1, BTimeoutFires 0,
              BMessage 0 (SubmitMove 0 ''rock'') 5, BMessage 0 (SubmitMove 0 ''paper'') 9]
           = b_step battleAfterMove (BMessage 0 (SubmitMove 0 ''paper'') 9)"
    by (simp add: b_run_def battleAfterMove_def fullBattle_def)
  also have "\<dots> = battleAfterMove"
    using l dup by simp
  finally have r: "b_run initialBattles
             [BConnect ''x'' ''A'' 0, BConnect ''x'' ''B'' 1, BTimeoutFires 0,
              BMessage 0 (SubmitMove 0 ''rock'') 5, BMessage 0 (SubmitMove 0 ''paper'') 9]
           = battleAfterMove" .
  show ?thesis using g dup r by (simp add: movesOf_def)
qed

subsection \<open>Connections to a full battle\<close>

text \<open>
  C1, as stated, fails.  \<open>handleConnection\<close> has no test on the size of \<open>players\<close>: in the
  full battle \<open>x\<close>, in progress with the players \<open>A\<close> and \<open>B\<close>, a connection of \<open>C\<close>
  is accepted, \<open>players\<close> has three members afterwards and the state of the manager has
  changed.
\<close>

theorem third_peer_counterexample:
  "map_option status (getBattle fullBattle ''x'') = Some BInProgress
   \<and> map_option b_players (getBattle fullBattle ''x'') = Some [''A'', ''B'']
   \<and> map_option b_players (getBattle (b_step fullBattle (BConnect ''x'' ''C'' 2)) ''x'')
       = Some [''A'', ''B'', ''C'']
   \<and> b_step fullBattle (BConnect ''x'' ''C'' 2) \<noteq> fullBattle"
  by (simp add: fullBattle_eq battle_defs)

text \<open>
  C1, amended.  A connection of a third distinct peer to a battle with two players is
  accepted: the peer is appended to \<open>players\<close> (three members) and its socket is stored in
  \<open>connections\<close>; the attempt changes nothing else of the battle (status, winner, move
  ledger, creation time).
\<close>

theorem third_peer_is_added:
  assumes "getBattle s cid = Some b" and "length (b_players b) = 2" and "p \<notin> set (b_players b)"
  shows "getBattle (handleConnection w cid p now s) cid =
           Some (b\<lparr>b_players := b_players b @ [p],
                   b_connections := AList.update p w (b_connections b)\<rparr>)"
  using assms by (simp add: handleConnection_def Let_def set_add_def)

theorem third_peer_is_added_witness:
  "getBattle fullBattle ''x'' =
     Some \<lparr>challengeId = ''x'', b_players = [''A'', ''B''],
            b_connections = [(''A'', 0), (''B'', 1)], moves = [],
            status = BInProgress, b_winner = None, createdAt = 0\<rparr>
   \<and> getBattle (handleConnection 2 ''x'' ''C'' 7 fullBattle) ''x'' =
     Some \<lparr>challengeId = ''x'', b_players = [''A'', ''B'', ''C''],
            b_connections = [(''A'', 0), (''B'', 1), (''C'', 2)], moves = [],
            status = BInProgress, b_winner = None, createdAt = 0\<rparr>"
proof -
  let ?b = "\<lparr>challengeId = ''x'', b_players = [''A'', ''B''],
            b_connections = [(''A'', 0), (''B'', 1)], moves = [],
            status = BInProgress, b_winner = None, createdAt = 0\<rparr>"
  have g: "getBattle fullBattle ''x'' = Some ?b"
    by (simp add: fullBattle_eq getBattle_def)
  have "getBattle (handleConnection 2 ''x'' ''C'' 7 fullBattle) ''x'' =
          Some (?b\<lparr>b_players := b_players ?b @ [''C''],
                    b_connections := AList.update ''C'' 2 (b_connections ?b)\<rparr>)"
    by (rule third_peer_is_added [OF g]) simp_all
  with g show ?thesis by simp
qed

subsection \<open>A peer leaves a battle in progress\<close>

text \<open>
  The two ways a battle gets a winner.  The \<open>game_ended\<close> frame sets the status to ended;
  \<open>handleDisconnect\<close> never assigns the status.
\<close>

lemma game_ended_frame_sets_status:
  "getBattle s cid = Some b \<Longrightarrow>
   map_option status (getBattle (handleBattleMessage cid p (GameEndedIn w) now s) cid)
     = Some BEnded"
  by (simp add: handleBattleMessage_def)

lemma handleDisconnect_keeps_status:
  "getBattle s cid = Some b \<Longrightarrow> getBattle (handleDisconnect cid p s) cid = Some b' \<Longrightarrow>
   status b' = status b"
  by (drule getBattle_handleDisconnect) auto

text \<open>
  C3.  In the battle \<open>x\<close>, in progress with \<open>A\<close> and \<open>B\<close> both connected, the socket of
  \<open>A\<close> closes.  The winner becomes \<open>B\<close> and \<open>B\<close> is sent \<open>opponent_left\<close> and then
  \<open>game_ended\<close> naming \<open>B\<close>, as the claim says; but the status is still in progress
  afterwards, where the claim says ended, and no cleanup timer is armed.
\<close>

theorem disconnect_leaves_status_in_progress:
  "map_option status (getBattle fullBattle ''x'') = Some BInProgress
   \<and> map_option b_connections (getBattle fullBattle ''x'') = Some [(''A'', 0), (''B'', 1)]
   \<and> map_option status (getBattle (b_step fullBattle (BClose 0)) ''x'') = Some BInProgress
   \<and> map_option b_winner (getBattle (b_step fullBattle (BClose 0)) ''x'') = Some (Some ''B'')
   \<and> b_outbox (b_step fullBattle (BClose 0))
       = b_outbox fullBattle @ [(1, OpponentLeft ''A''), (1, GameEnded ''B'' ''x'')]
   \<and> b_timeouts (b_step fullBattle (BClose 0)) = []"
  by (simp add: fullBattle_eq battle_defs)

section \<open>Properties of the arena server: the countdown timer\<close>

subsection \<open>Frame lemmas: what leaves the sessions and the timers alone\<close>

lemma frame_sendIfOpen [simp]:
  "games (sendIfOpen w m s) = games s" "gameTimers (sendIfOpen w m s) = gameTimers s"
  "timeouts (sendIfOpen w m s) = timeouts s"
  by (simp_all add: sendIfOpen_def)

lemma frame_closeSocket [simp]:
  "games (closeSocket w s) = games s" "gameTimers (closeSocket w s) = gameTimers s"
  "timeouts (closeSocket w s) = timeouts s"
  by (simp_all add: closeSocket_def)

lemma frame_broadcastToGame [simp]:
  "games (broadcastToGame g m ex s) = games s"
  "gameTimers (broadcastToGame g m ex s) = gameTimers s"
  "timeouts (broadcastToGame g m ex s) = timeouts s"
  by (simp_all add: broadcastToGame_def)

lemma frame_sendToPlayer [simp]:
  "games (sendToPlayer p g m s) = games s" "gameTimers (sendToPlayer p g m s) = gameTimers s"
  "timeouts (sendToPlayer p g m s) = timeouts s"
  by (simp_all add: sendToPlayer_def split: option.splits)

lemma frame_addConnection [simp]:
  "games (addConnection w p g now s) = games s"
  "gameTimers (addConnection w p g now s) = gameTimers s"
  "timeouts (addConnection w p g now s) = timeouts s"
  by (simp_all add: addConnection_def)

lemma frame_removeConnection [simp]:
  "games (removeConnection p g s) = games s"
  "gameTimers (removeConnection p g s) = gameTimers s"
  "timeouts (removeConnection p g s) = timeouts s"
  by (simp_all add: removeConnection_def Let_def split: option.splits)

lemma frame_updateHeartbeat [simp]:
  "games (updateHeartbeat p g now s) = games s"
  "gameTimers (updateHeartbeat p g now s) = gameTimers s"
  "timeouts (updateHeartbeat p g now s) = timeouts s"
  by (simp_all add: updateHeartbeat_def split: option.splits)

lemma frame_broadcastGameState [simp]:
  "games (broadcastGameState g s) = games s"
  "gameTimers (broadcastGameState g s) = gameTimers s"
  "timeouts (broadcastGameState g s) = timeouts s"
  by (simp_all add: broadcastGameState_def split: option.splits)

lemma frame_sendInitialGameState [simp]:
  "games (sendInitialGameState w g s) = games s"
  "gameTimers (sendInitialGameState w g s) = gameTimers s"
  "timeouts (sendInitialGameState w g s) = timeouts s"
  by (simp_all add: sendInitialGameState_def Let_def split: option.splits)

lemma frame_checkStale [simp]:
  "games (checkStale now c s) = games s"
  "gameTimers (checkStale now c s) = gameTimers s"
  "timeouts (checkStale now c s) = timeouts s"
  by (simp_all add: checkStale_def)

lemma frame_fold_checkStale [simp]:
  "games (fold (checkStale now) cs s) = games s"
  "gameTimers (fold (checkStale now) cs s) = gameTimers s"
  "timeouts (fold (checkStale now) cs s) = timeouts s"
  by (induction cs arbitrary: s) simp_all

lemma frame_checkStaleConnections [simp]:
  "games (checkStaleConnections now s) = games s"
  "gameTimers (checkStaleConnections now s) = gameTimers s"
  "timeouts (checkStaleConnections now s) = timeouts s"
  by (simp_all add: checkStaleConnections_def)

lemma timersOk_frame:
  "games s' = games s \<Longrightarrow> gameTimers s' = gameTimers s \<Longrightarrow> timeouts s' = timeouts s \<Longrightarrow>
   timersOk s' = timersOk s"
  by (simp add: timersOk_def getGameState_def)

lemma in_delete: "(k, v) \<in> set (AList.delete h al) \<longleftrightarrow> k \<noteq> h \<and> (k, v) \<in> set al"
  by (auto simp: AList.delete_eq)

lemma timersOk_armedD:
  "timersOk s \<Longrightarrow> (h, CountdownTimer g) \<in> set (timeouts s) \<Longrightarrow>
   map_of (gameTimers s) g = Some h \<and> (\<exists>gm. getGameState s g = Some gm \<and> phase gm = Countdown)"
  unfolding timersOk_def by blast

lemma timersOk_winnerD:
  "timersOk s \<Longrightarrow> getGameState s g = Some gm \<Longrightarrow> winner gm \<noteq> None \<Longrightarrow> phase gm = Ended"
  unfolding timersOk_def by blast

lemma timersOkI:
  assumes "\<And>h g. (h, CountdownTimer g) \<in> set (timeouts s) \<Longrightarrow> map_of (gameTimers s) g = Some h"
      and "\<And>h g. (h, CountdownTimer g) \<in> set (timeouts s) \<Longrightarrow>
             \<exists>gm. getGameState s g = Some gm \<and> phase gm = Countdown"
      and "\<And>g gm. getGameState s g = Some gm \<Longrightarrow> winner gm \<noteq> None \<Longrightarrow> phase gm = Ended"
  shows "timersOk s"
  unfolding timersOk_def using assms by blast

lemma getGameState_putGame [simp]:
  "getGameState (putGame g gm s) g' = (if g' = g then Some gm else getGameState s g')"
  by (simp add: getGameState_def putGame_def update_conv')

lemma frame_putGame [simp]:
  "gameTimers (putGame g gm s) = gameTimers s" "timeouts (putGame g gm s) = timeouts s"
  by (simp_all add: putGame_def)

lemma timersOk_putGame:
  assumes ok: "timersOk s"
      and armed: "\<And>h. (h, CountdownTimer g) \<in> set (timeouts s) \<Longrightarrow> phase gm' = Countdown"
      and win: "winner gm' \<noteq> None \<Longrightarrow> phase gm' = Ended"
  shows "timersOk (putGame g gm' s)"
proof (rule timersOkI)
  fix h g' assume a: "(h, CountdownTimer g') \<in> set (timeouts (putGame g gm' s))"
  then show "map_of (gameTimers (putGame g gm' s)) g' = Some h"
    using timersOk_armedD[OF ok] by simp
  show "\<exists>gm. getGameState (putGame g gm' s) g' = Some gm \<and> phase gm = Countdown"
    using a timersOk_armedD[OF ok, of h g'] armed by auto
next
  fix g' gm assume "getGameState (putGame g gm' s) g' = Some gm" "winner gm \<noteq> None"
  then show "phase gm = Ended"
    using timersOk_winnerD[OF ok] win by (auto split: if_splits)
qed

lemma timersOk_getOrCreateGame:
  assumes "timersOk s"
  shows "timersOk (getOrCreateGame g s)"
proof (cases "getGameState s g")
  case (Some gm)
  with assms show ?thesis by (simp add: getOrCreateGame_def)
next
  case None
  have "\<And>h. (h, CountdownTimer g) \<notin> set (timeouts s)"
    using timersOk_armedD[OF assms] None by fastforce
  with assms None show ?thesis
    by (auto simp: getOrCreateGame_def newGame_def intro!: timersOk_putGame)
qed

lemma timersOk_clearTimeout: "timersOk s \<Longrightarrow> timersOk (clearTimeout h s)"
  by (auto simp: timersOk_def clearTimeout_def getGameState_def in_delete)

lemma timersOk_setTimeout:
  "timersOk s \<Longrightarrow> (\<And>g. cb \<noteq> CountdownTimer g) \<Longrightarrow> timersOk (snd (setTimeout cb s))"
  by (auto simp: timersOk_def setTimeout_def getGameState_def)


lemma getGameState_frames [simp]:
  "getGameState (sendIfOpen w m s) = getGameState s"
  "getGameState (closeSocket w s) = getGameState s"
  "getGameState (broadcastToGame g m ex s) = getGameState s"
  "getGameState (sendToPlayer p g m s) = getGameState s"
  "getGameState (addConnection w p g now s) = getGameState s"
  "getGameState (removeConnection p g s) = getGameState s"
  "getGameState (updateHeartbeat p g now s) = getGameState s"
  "getGameState (broadcastGameState g s) = getGameState s"
  "getGameState (sendInitialGameState w g s) = getGameState s"
  "getGameState (checkStaleConnections now s) = getGameState s"
  "getGameState (clearTimeout h s) = getGameState s"
  "getGameState (snd (setTimeout cb s)) = getGameState s"
  "getGameState (s\<lparr>listeners := l\<rparr>) = getGameState s"
  "getGameState (s\<lparr>nextSocket := n\<rparr>) = getGameState s"
  "getGameState (s\<lparr>gameTimers := gt\<rparr>) = getGameState s"
  "getGameState (s\<lparr>gameDeadlineTimers := dt\<rparr>) = getGameState s"
  by (simp_all add: getGameState_def fun_eq_iff clearTimeout_def setTimeout_def)

lemma clearGameTimer_games [simp]:
  "games (clearGameTimer g s) = games s" "getGameState (clearGameTimer g s) = getGameState s"
  by (simp_all add: clearGameTimer_def clearTimeout_def getGameState_def fun_eq_iff split: option.splits)

lemma clearGameTimer_armed:
  assumes "timersOk s" and "(h, CountdownTimer g') \<in> set (timeouts (clearGameTimer g s))"
  shows "g' \<noteq> g \<and> (h, CountdownTimer g') \<in> set (timeouts s)
         \<and> map_of (gameTimers (clearGameTimer g s)) g' = Some h"
proof (cases "map_of (gameTimers s) g")
  case None
  with assms timersOk_armedD[OF assms(1), of h g'] show ?thesis
    by (auto simp: clearGameTimer_def)
next
  case (Some h0)
  with assms(2) have a: "h \<noteq> h0" "(h, CountdownTimer g') \<in> set (timeouts s)"
    by (auto simp: clearGameTimer_def clearTimeout_def in_delete)
  with timersOk_armedD[OF assms(1) a(2)] Some have "g' \<noteq> g" by auto
  with a timersOk_armedD[OF assms(1) a(2)] Some show ?thesis
    by (simp add: clearGameTimer_def clearTimeout_def)
qed

lemma timersOk_clearGameTimer: "timersOk s \<Longrightarrow> timersOk (clearGameTimer g s)"
proof (rule timersOkI)
  assume ok: "timersOk s"
  { fix h g' assume a: "(h, CountdownTimer g') \<in> set (timeouts (clearGameTimer g s))"
    from clearGameTimer_armed[OF ok a]
    show "map_of (gameTimers (clearGameTimer g s)) g' = Some h" by simp
    from clearGameTimer_armed[OF ok a] timersOk_armedD[OF ok, of h g']
    show "\<exists>gm. getGameState (clearGameTimer g s) g' = Some gm \<and> phase gm = Countdown" by simp }
  fix g' gm assume "getGameState (clearGameTimer g s) g' = Some gm" "winner gm \<noteq> None"
  then show "phase gm = Ended" using timersOk_winnerD[OF ok] by simp
qed

lemma clearGameTimer_putGame:
  "clearGameTimer g (putGame g' gm s) = putGame g' gm (clearGameTimer g s)"
  by (simp add: clearGameTimer_def putGame_def clearTimeout_def split: option.splits)

lemma timersOk_declareWinner: "timersOk s \<Longrightarrow> timersOk (declareWinner g w s)"
  by (auto simp: declareWinner_def clearGameTimer_putGame timersOk_clearGameTimer
      dest: clearGameTimer_armed intro!: timersOk_putGame split: option.splits)

lemma timersOk_updatePlayerState: "timersOk s \<Longrightarrow> timersOk (updatePlayerState g p st s)"
  by (auto simp: updatePlayerState_def dest: timersOk_armedD timersOk_winnerD
      intro!: timersOk_putGame split: option.splits)

lemma timersOk_games_delete:
  assumes "timersOk s" and "\<And>h. (h, CountdownTimer g) \<notin> set (timeouts s)"
  shows "timersOk (s\<lparr>games := AList.delete g (games s)\<rparr>)"
proof (rule timersOkI)
  fix h g' assume a: "(h, CountdownTimer g') \<in> set (timeouts (s\<lparr>games := AList.delete g (games s)\<rparr>))"
  then have "g' \<noteq> g" using assms(2) by auto
  with a timersOk_armedD[OF assms(1), of h g']
  show "map_of (gameTimers (s\<lparr>games := AList.delete g (games s)\<rparr>)) g' = Some h"
    "\<exists>gm. getGameState (s\<lparr>games := AList.delete g (games s)\<rparr>) g' = Some gm \<and> phase gm = Countdown"
    by (auto simp: getGameState_def delete_conv')
next
  fix g' gm assume "getGameState (s\<lparr>games := AList.delete g (games s)\<rparr>) g' = Some gm" "winner gm \<noteq> None"
  then show "phase gm = Ended" using timersOk_winnerD[OF assms(1), of g' gm]
    by (auto simp: getGameState_def delete_conv' split: if_splits)
qed

lemma timersOk_removePlayer:
  assumes "timersOk s"
  shows "timersOk (removePlayer g p s)"
proof (cases "getGameState s g")
  case None
  with assms show ?thesis by (simp add: removePlayer_def)
next
  case (Some gm)
  show ?thesis
  proof (cases "AList.delete p (players gm) = []")
    case True
    have "timersOk ((clearGameTimer g s)\<lparr>games := AList.delete g (games (clearGameTimer g s))\<rparr>)"
      by (rule timersOk_games_delete)
         (use assms in \<open>auto simp: timersOk_clearGameTimer dest: clearGameTimer_armed\<close>)
    with Some True show ?thesis by (simp add: removePlayer_def)
  next
    case False
    with Some assms show ?thesis
      by (auto simp: removePlayer_def dest: timersOk_armedD timersOk_winnerD
          intro!: timersOk_putGame)
  qed
qed


lemma canStart_iff:
  "canStart (canStartGame s g) \<longleftrightarrow>
     (\<exists>gm. getGameState s g = Some gm \<and> phase gm = Waiting \<and> readyPlayers gm \<noteq> [])"
  by (auto simp: canStartGame_def Let_def split: option.splits)

lemma readyCount_canStart:
  "getGameState s g = Some gm \<Longrightarrow> canStart (canStartGame s g) \<Longrightarrow>
   readyCount (canStartGame s g) = length (readyPlayers gm)"
  by (auto simp: canStartGame_def Let_def split: if_splits)

text \<open>The three outcomes of \<open>startGame\<close>.\<close>

lemma startGame_cases:
  obtains (refused) "\<not> canStart (canStartGame s g)" "snd (startGame g now s) = s"
        "\<not> success (fst (startGame g now s))"
  | (autoWinner) gm where "getGameState s g = Some gm" "phase gm = Waiting"
        "length (readyPlayers gm) = 1"
        "snd (startGame g now s) = putGame g (gm\<lparr>phase := Ended, winner := Some (hd (readyPlayers gm))\<rparr>) s"
        "fst (startGame g now s) = StartResult True ''Auto-winner declared''
            (Some (gm\<lparr>phase := Ended, winner := Some (hd (readyPlayers gm))\<rparr>))"
  | (countdown) gm where "getGameState s g = Some gm" "phase gm = Waiting"
        "length (readyPlayers gm) \<ge> 2"
        "snd (startGame g now s) =
           (putGame g (gm\<lparr>phase := Countdown, countdownStartTime := Some now\<rparr>) s)
           \<lparr>timeouts := timeouts s @ [(nextTimeout s, CountdownTimer g)],
             nextTimeout := Suc (nextTimeout s),
             gameTimers := AList.update g (nextTimeout s) (gameTimers s)\<rparr>"
        "fst (startGame g now s) = StartResult True ''Countdown started''
            (Some (gm\<lparr>phase := Countdown, countdownStartTime := Some now\<rparr>))"
proof (cases "canStart (canStartGame s g)")
  case False
  then have "snd (startGame g now s) = s" "\<not> success (fst (startGame g now s))"
    by (auto simp: startGame_def Let_def split: option.splits)
  with False show ?thesis by (rule refused)
next
  case True
  then obtain gm where gm: "getGameState s g = Some gm" "phase gm = Waiting" "readyPlayers gm \<noteq> []"
    by (auto simp: canStart_iff)
  show ?thesis
  proof (cases "length (readyPlayers gm) = 1")
    case one: True
    with gm True readyCount_canStart[OF gm(1) True] show ?thesis
      by (intro autoWinner[of gm]) (simp_all add: startGame_def Let_def)
  next
    case many: False
    from gm(3) have "length (readyPlayers gm) \<noteq> 0" by simp
    with many have "length (readyPlayers gm) \<ge> 2" by arith
    with gm True many readyCount_canStart[OF gm(1) True] show ?thesis
      by (intro countdown[of gm]) (simp_all add: startGame_def Let_def setTimeout_def putGame_def)
  qed
qed

lemma timersOk_startGame:
  assumes ok: "timersOk s"
  shows "timersOk (snd (startGame g now s))"
proof (cases rule: startGame_cases[where s = s and g = g and now = now])
  case refused
  with ok show ?thesis by simp
next
  case (autoWinner gm)
  have "\<And>h. (h, CountdownTimer g) \<notin> set (timeouts s)"
    using timersOk_armedD[OF ok] autoWinner(1,2) by fastforce
  then show ?thesis using autoWinner ok by (auto intro!: timersOk_putGame)
next
  case (countdown gm)
  have none: "\<And>h. (h, CountdownTimer g) \<notin> set (timeouts s)"
    using timersOk_armedD[OF ok] countdown(1,2) by fastforce
  have w: "winner gm = None"
    using timersOk_winnerD[OF ok countdown(1)] countdown(2) by (cases "winner gm") auto
  let ?s1 = "putGame g (gm\<lparr>phase := Countdown, countdownStartTime := Some now\<rparr>) s"
  have ok1: "timersOk ?s1" using none w ok by (auto intro!: timersOk_putGame)
  show ?thesis
  proof (rule timersOkI)
    fix h g' assume a: "(h, CountdownTimer g') \<in> set (timeouts (snd (startGame g now s)))"
    then consider "h = nextTimeout s" "g' = g" | "(h, CountdownTimer g') \<in> set (timeouts s)" "g' \<noteq> g"
      using countdown(4) none by auto
    then have both: "map_of (gameTimers (snd (startGame g now s))) g' = Some h \<and>
      (\<exists>gm. getGameState (snd (startGame g now s)) g' = Some gm \<and> phase gm = Countdown)"
    proof cases
      case 1
      then show ?thesis
        using countdown(4) by (simp add: update_conv' getGameState_def putGame_def)
    next
      case 2
      with timersOk_armedD[OF ok 2(1)] show ?thesis
        using countdown(4) by (simp add: update_conv' getGameState_def putGame_def)
    qed
    from both show "map_of (gameTimers (snd (startGame g now s))) g' = Some h" by simp
    from both show "\<exists>gm. getGameState (snd (startGame g now s)) g' = Some gm \<and> phase gm = Countdown"
      by simp
  next
    fix g' gm' assume "getGameState (snd (startGame g now s)) g' = Some gm'" "winner gm' \<noteq> None"
    then show "phase gm' = Ended"
      using countdown(4) timersOk_winnerD[OF ok1, of g' gm']
      by (simp add: getGameState_def putGame_def)
  qed
qed

lemma timersOk_checkAutoStart: "timersOk s \<Longrightarrow> timersOk (checkAutoStart g s)"
  by (simp add: checkAutoStart_def timersOk_setTimeout)

lemma timersOk_gameDeadlineTimers [simp]:
  "timersOk (s\<lparr>gameDeadlineTimers := dt\<rparr>) = timersOk s"
  "timersOk (s\<lparr>listeners := l\<rparr>) = timersOk s"
  "timersOk (s\<lparr>nextSocket := n\<rparr>) = timersOk s"
  by (rule timersOk_frame; simp)+

lemma timersOk_frames [simp]:
  "timersOk (sendIfOpen w m s) = timersOk s"
  "timersOk (closeSocket w s) = timersOk s"
  "timersOk (broadcastToGame g m ex s) = timersOk s"
  "timersOk (sendToPlayer p g m s) = timersOk s"
  "timersOk (addConnection w p g now s) = timersOk s"
  "timersOk (removeConnection p g s) = timersOk s"
  "timersOk (updateHeartbeat p g now s) = timersOk s"
  "timersOk (broadcastGameState g s) = timersOk s"
  "timersOk (sendInitialGameState w g s) = timersOk s"
  "timersOk (checkStaleConnections now s) = timersOk s"
  by (rule timersOk_frame; simp)+

lemma timersOk_startDeadlineMonitor:
  assumes "timersOk s"
  shows "timersOk (startDeadlineMonitor g d now s)"
proof -
  define s1 where
    "s1 = (case map_of (gameDeadlineTimers s) g of None \<Rightarrow> s | Some h \<Rightarrow> clearTimeout h s)"
  have ok1: "timersOk s1"
    using assms by (simp add: s1_def timersOk_clearTimeout split: option.splits)
  then have "timersOk (snd (setTimeout (DeadlineTimer g) s1))"
    by (simp add: timersOk_setTimeout)
  with ok1 show ?thesis
    by (simp add: startDeadlineMonitor_def Let_def s1_def[symmetric] timersOk_checkAutoStart
        case_prod_beta)
qed

lemma timersOk_handleMessage:
  assumes ok: "timersOk s"
  shows "timersOk (handleMessage p g msg now s)"
proof (cases msg)
  case Heartbeat
  with ok show ?thesis by (simp add: handleHeartbeat_def)
next
  case MarkReady
  have "timersOk (markPlayerReady g p s)"
    using timersOk_getOrCreateGame[OF ok, of g]
    by (auto simp: markPlayerReady_def Let_def split: option.splits
        dest: timersOk_armedD timersOk_winnerD intro!: timersOk_putGame)
  with MarkReady show ?thesis by (simp add: handleMarkReady_def Let_def split: option.splits)
next
  case StartGame
  with timersOk_startGame[OF ok, of g now] show ?thesis
    by (simp add: handleStartGame_def Let_def case_prod_beta split: option.splits)
next
  case (Update st)
  with ok show ?thesis by (simp add: handlePlayerUpdate_def timersOk_updatePlayerState)
next
  case Eliminated
  with ok show ?thesis
    by (simp add: handleEliminated_def Let_def timersOk_declareWinner split: option.splits)
next
  case (Winner w)
  with ok show ?thesis by (simp add: handleWinner_def timersOk_declareWinner)
next
  case (SetDeadline d)
  with ok show ?thesis by simp
next
  case Unknown
  with ok show ?thesis by simp
qed

lemma timersOk_handlePhase3Message:
  "timersOk s \<Longrightarrow> timersOk (handlePhase3Message p g msg now s)"
  by (cases msg)
     (simp_all add: handlePhase3Message_def Let_def timersOk_handleMessage
        timersOk_checkAutoStart timersOk_startDeadlineMonitor del: handleMessage.simps)

lemma timersOk_handlePhase3Connection:
  "timersOk s \<Longrightarrow> timersOk (handlePhase3Connection w gid p now s)"
  by (simp add: handlePhase3Connection_def Let_def addPlayer_def timersOk_getOrCreateGame
      split: option.splits)

lemma timersOk_handleClose: "timersOk s \<Longrightarrow> timersOk (handleClose p g s)"
  by (simp add: handleClose_def timersOk_removePlayer)

lemma timersOk_transitionToActive:
  assumes ok: "timersOk s" and armed: "map_of (timeouts s) h = Some (CountdownTimer g)"
  shows "timersOk (transitionToActive g now (clearTimeout h s))"
proof -
  have in_s: "(h, CountdownTimer g) \<in> set (timeouts s)" using armed by (rule map_of_SomeD)
  from timersOk_armedD[OF ok in_s] obtain gm where
    gm: "map_of (gameTimers s) g = Some h" "getGameState s g = Some gm" "phase gm = Countdown"
    by auto
  have none: "\<And>h'. (h', CountdownTimer g) \<notin> set (timeouts (clearTimeout h s))"
  proof
    fix h' assume "(h', CountdownTimer g) \<in> set (timeouts (clearTimeout h s))"
    then have "h' \<noteq> h" "(h', CountdownTimer g) \<in> set (timeouts s)"
      by (auto simp: clearTimeout_def in_delete)
    with timersOk_armedD[OF ok this(2)] gm(1) show False by simp
  qed
  have w: "winner gm = None"
    using timersOk_winnerD[OF ok gm(2)] gm(3) by (cases "winner gm") auto
  have "timersOk (putGame g (gm\<lparr>phase := Active, startTime := Some now\<rparr>) (clearTimeout h s))"
    using none w timersOk_clearTimeout[OF ok, of h] by (auto intro!: timersOk_putGame)
  with gm show ?thesis by (simp add: transitionToActive_def)
qed

lemma timersOk_autoStartCallback: "timersOk s \<Longrightarrow> timersOk (autoStartCallback g now s)"
  using timersOk_startGame[of s g now]
  by (simp add: autoStartCallback_def case_prod_beta)

lemma timersOk_step:
  assumes ok: "timersOk s"
  shows "timersOk (step s e)"
proof (cases e)
  case (Connect gid p now)
  with ok show ?thesis by (simp add: timersOk_handlePhase3Connection)
next
  case (Message w m now)
  with ok show ?thesis by (simp add: timersOk_handlePhase3Message split: option.splits)
next
  case (Close w)
  with ok show ?thesis by (simp add: timersOk_handleClose split: option.splits)
next
  case (TimeoutFires h now)
  show ?thesis
  proof (cases "map_of (timeouts s) h")
    case None
    with TimeoutFires ok show ?thesis by simp
  next
    case (Some cb)
    then show ?thesis using TimeoutFires ok
      by (cases cb)
         (simp_all add: timersOk_transitionToActive timersOk_autoStartCallback
            timersOk_checkAutoStart timersOk_clearTimeout)
  qed
next
  case (HealthCheck now)
  with ok show ?thesis by simp
next
  case (SocketGone w)
  with ok show ?thesis by simp
qed

lemma timersOk_initial: "timersOk initialServer"
  by (simp add: timersOk_def initialServer_def getGameState_def)

lemma timersOk_run: "timersOk s \<Longrightarrow> timersOk (run s es)"
  unfolding run_def by (induction es arbitrary: s) (simp_all add: timersOk_step)


subsection \<open>The phase never moves backwards\<close>

lemma advances_refl [simp]: "advances s s"
  by (simp add: advances_def)

lemma advances_trans: "advances s s1 \<Longrightarrow> advances s1 s2 \<Longrightarrow> advances s s2"
  unfolding advances_def by (meson le_trans)

lemma advances_same: "getGameState s' = getGameState s \<Longrightarrow> advances s s'"
  by (simp add: advances_def)

lemma advances_putGame:
  assumes "\<And>gm. getGameState s g = Some gm \<Longrightarrow> phaseRank (phase gm) \<le> phaseRank (phase gm')"
  shows "advances s (putGame g gm' s)"
  using assms by (auto simp: advances_def)

lemma advances_getOrCreateGame: "advances s (getOrCreateGame g s)"
  by (auto simp: getOrCreateGame_def intro!: advances_putGame split: option.splits)

lemma advances_startGame: "advances s (snd (startGame g now s))"
proof (cases rule: startGame_cases[where s = s and g = g and now = now])
  case refused
  then show ?thesis by simp
next
  case (autoWinner gm)
  then show ?thesis by (auto intro!: advances_putGame)
next
  case (countdown gm)
  have "advances s (putGame g (gm\<lparr>phase := Countdown, countdownStartTime := Some now\<rparr>) s)"
    using countdown(1,2) by (auto intro!: advances_putGame)
  then show ?thesis using countdown(4) by (simp add: advances_def getGameState_def putGame_def)
qed

lemma phaseRank_le_Ended: "phaseRank ph \<le> 3"
  by (cases ph) simp_all

lemma advances_declareWinner: "advances s (declareWinner g w s)"
proof (cases "getGameState s g")
  case None
  then show ?thesis by (simp add: declareWinner_def)
next
  case (Some gm)
  have "advances s (putGame g (gm\<lparr>phase := Ended, winner := Some w\<rparr>) s)"
    by (rule advances_putGame) (simp add: phaseRank_le_Ended)
  then show ?thesis using Some by (simp add: declareWinner_def advances_def)
qed

lemma advances_updatePlayerState: "advances s (updatePlayerState g p st s)"
  by (auto simp: updatePlayerState_def intro!: advances_putGame split: option.splits)

lemma advances_markPlayerReady: "advances s (markPlayerReady g p s)"
proof -
  have "advances (getOrCreateGame g s) (markPlayerReady g p s)"
    by (auto simp: markPlayerReady_def Let_def advances_def split: option.splits)
  with advances_getOrCreateGame show ?thesis by (rule advances_trans)
qed

lemma advances_frames [simp]:
  "advances s (sendIfOpen w m s1) = advances s s1"
  "advances s (closeSocket w s1) = advances s s1"
  "advances s (broadcastToGame g m ex s1) = advances s s1"
  "advances s (sendToPlayer p g m s1) = advances s s1"
  "advances s (addConnection w p g now s1) = advances s s1"
  "advances s (removeConnection p g s1) = advances s s1"
  "advances s (updateHeartbeat p g now s1) = advances s s1"
  "advances s (broadcastGameState g s1) = advances s s1"
  "advances s (sendInitialGameState w g s1) = advances s s1"
  "advances s (checkStaleConnections now s1) = advances s s1"
  "advances s (clearTimeout h s1) = advances s s1"
  "advances s (snd (setTimeout cb s1)) = advances s s1"
  "advances s (s1\<lparr>listeners := l\<rparr>) = advances s s1"
  "advances s (s1\<lparr>nextSocket := n\<rparr>) = advances s s1"
  "advances s (s1\<lparr>gameDeadlineTimers := dt\<rparr>) = advances s s1"
  by (simp_all add: advances_def)

lemma advances_frames_left [simp]:
  "advances (clearTimeout h s) s1 = advances s s1"
  "advances (s\<lparr>nextSocket := n\<rparr>) s1 = advances s s1"
  by (simp_all add: advances_def)

lemma advances_checkAutoStart [simp]: "advances s (checkAutoStart g s1) = advances s s1"
  by (simp add: checkAutoStart_def)

lemma advances_startDeadlineMonitor: "advances s (startDeadlineMonitor g d now s)"
  by (simp add: startDeadlineMonitor_def Let_def case_prod_beta split: option.splits)

lemma advances_handleMessage: "advances s (handleMessage p g msg now s)"
proof (cases msg)
  case Heartbeat
  then show ?thesis by (simp add: handleHeartbeat_def)
next
  case MarkReady
  then show ?thesis
    by (simp add: handleMarkReady_def Let_def advances_markPlayerReady split: option.splits)
next
  case StartGame
  with advances_startGame[of s g now] show ?thesis
    by (simp add: handleStartGame_def Let_def case_prod_beta split: option.splits)
next
  case (Update st)
  then show ?thesis by (simp add: handlePlayerUpdate_def advances_updatePlayerState)
next
  case Eliminated
  have "advances s (declareWinner g w (broadcastToGame g m ex s))" for w m ex
    using advances_declareWinner[of "broadcastToGame g m ex s" g w]
    by (simp add: advances_def)
  with Eliminated show ?thesis
    by (simp add: handleEliminated_def Let_def split: option.splits)
next
  case (Winner w)
  then show ?thesis by (simp add: handleWinner_def advances_declareWinner)
next
  case (SetDeadline d)
  then show ?thesis by simp
next
  case Unknown
  then show ?thesis by simp
qed

lemma advances_handlePhase3Message: "advances s (handlePhase3Message p g msg now s)"
  by (cases msg)
     (simp_all add: handlePhase3Message_def Let_def advances_handleMessage
        advances_startDeadlineMonitor del: handleMessage.simps)

lemma advances_handlePhase3Connection: "advances s (handlePhase3Connection w gid p now s)"
proof -
  have "advances s (getOrCreateGame g (addConnection w p g now s))" for g
    using advances_getOrCreateGame[of "addConnection w p g now s" g]
    by (simp add: advances_def)
  then show ?thesis
    by (simp add: handlePhase3Connection_def Let_def addPlayer_def split: option.splits)
qed

lemma advances_transitionToActive:
  assumes ok: "timersOk s" and armed: "map_of (timeouts s) h = Some (CountdownTimer g)"
  shows "advances s (transitionToActive g now (clearTimeout h s))"
proof -
  have "(h, CountdownTimer g) \<in> set (timeouts s)" using armed by (rule map_of_SomeD)
  from timersOk_armedD[OF ok this] obtain gm where
    gm: "getGameState s g = Some gm" "phase gm = Countdown" by auto
  have "advances s (putGame g (gm\<lparr>phase := Active, startTime := Some now\<rparr>) s)"
    using gm by (auto intro!: advances_putGame)
  then show ?thesis using gm by (simp add: transitionToActive_def advances_def)
qed

lemma advances_autoStartCallback: "advances s (autoStartCallback g now (clearTimeout h s))"
  using advances_startGame[of "clearTimeout h s" g now]
  by (simp add: autoStartCallback_def case_prod_beta)

lemma recedes_removePlayer: "recedes s (removePlayer g p s)"
  by (auto simp: recedes_def removePlayer_def Let_def getGameState_def putGame_def update_conv'
      delete_conv' split: option.splits if_splits)

lemma recedes_handleClose: "recedes s (handleClose p g s)"
  using recedes_removePlayer[of "removeConnection p g s" g p]
  by (simp add: handleClose_def recedes_def)

lemma advancesD:
  "advances s s' \<Longrightarrow> getGameState s g = Some gm \<Longrightarrow> getGameState s' g = Some gm' \<Longrightarrow>
   phaseRank (phase gm) \<le> phaseRank (phase gm')"
  unfolding advances_def by fastforce

lemma recedesD:
  "recedes s s' \<Longrightarrow> getGameState s g = Some gm \<Longrightarrow> getGameState s' g = Some gm' \<Longrightarrow>
   phaseRank (phase gm) \<le> phaseRank (phase gm')"
  unfolding recedes_def by fastforce

text \<open>One event never moves the phase of a session backwards.\<close>

lemma rank_step:
  assumes ok: "timersOk s"
      and before: "getGameState s g = Some gm"
      and after: "getGameState (step s e) g = Some gm'"
  shows "phaseRank (phase gm) \<le> phaseRank (phase gm')"
proof (cases e)
  case (Close w)
  have "recedes s (step s e)"
  proof (cases "map_of (listeners s) w")
    case None
    with Close show ?thesis by (simp add: recedes_def)
  next
    case (Some pg)
    obtain p g' where "pg = (p, g')" by (cases pg)
    with Some Close
      recedes_handleClose[of "(closeSocket w s)\<lparr>listeners := AList.delete w (listeners s)\<rparr>" p g']
    show ?thesis by (simp add: recedes_def)
  qed
  from recedesD[OF this before after] show ?thesis .
next
  case (Connect gid p now)
  then have "advances s (step s e)"
    using advances_handlePhase3Connection[of "s\<lparr>nextSocket := Suc (nextSocket s)\<rparr>"]
    by simp
  from advancesD[OF this before after] show ?thesis .
next
  case (Message w m now)
  then have "advances s (step s e)"
    by (simp add: advances_handlePhase3Message split: option.splits)
  from advancesD[OF this before after] show ?thesis .
next
  case (TimeoutFires h now)
  have "advances s (step s e)"
  proof (cases "map_of (timeouts s) h")
    case None
    with TimeoutFires show ?thesis by simp
  next
    case (Some cb)
    then show ?thesis using TimeoutFires ok
      by (cases cb) (simp_all add: advances_transitionToActive advances_autoStartCallback)
  qed
  from advancesD[OF this before after] show ?thesis .
next
  case (HealthCheck now)
  with before after show ?thesis by simp
next
  case (SocketGone w)
  with before after show ?thesis by simp
qed

lemma rank_persists:
  "timersOk s \<Longrightarrow> persists g s es \<Longrightarrow> rankOf s g \<le> rankOf (run s es) g"
proof (induction es arbitrary: s)
  case Nil
  then show ?case by (simp add: run_def)
next
  case (Cons e es)
  from Cons.prems obtain gm where gm: "getGameState s g = Some gm" by auto
  from Cons.prems have p: "persists g (step s e) es" by simp
  then obtain gm' where gm': "getGameState (step s e) g = Some gm'" by (cases es) auto
  have "rankOf s g \<le> rankOf (step s e) g"
    using rank_step[OF Cons.prems(1) gm gm'] gm gm' by (simp add: rankOf_def)
  also have "\<dots> \<le> rankOf (run (step s e) es) g"
    using Cons.IH[OF timersOk_step[OF Cons.prems(1)] p] .
  finally show ?case by (simp add: run_def)
qed

lemma winner_not_armed:
  assumes "timersOk s" "getGameState s g = Some gm" "winner gm \<noteq> None"
  shows "phase gm = Ended \<and> \<not> countdownArmed s g"
proof -
  have e: "phase gm = Ended" using assms by (rule timersOk_winnerD)
  have "\<not> countdownArmed s g"
  proof
    assume "countdownArmed s g"
    then obtain h where "(h, CountdownTimer g) \<in> set (timeouts s)"
      by (auto simp: countdownArmed_def list_ex_iff)
    from timersOk_armedD[OF assms(1) this] assms(2) e show False by auto
  qed
  with e show ?thesis by simp
qed


text \<open>
  C7, as stated, fails: over sequences of events that include a disconnect the phase seen
  for a room can go back.  In \<open>wonGame\<close> game 7 is ended, nobody has sent an \<open>update\<close>, and
  alice and bob are both connected.  The socket of bob closes: the roster is empty, so
  \<open>removePlayer\<close> deletes the session.  Alice, still connected on an open socket, marks
  ready: \<open>getOrCreateGame\<close> creates a session of game 7 in the waiting phase.  The same
  two events take \<open>countdownGame\<close> from countdown back to waiting.
\<close>

theorem phase_moves_back_counterexample:
  "map_option phase (getGameState wonGame 7) = Some Ended
   \<and> getGameState (step wonGame (Close 1)) 7 = None
   \<and> map_option phase (getGameState (run wonGame [Close 1, Message 0 MarkReady 3000]) 7)
       = Some Waiting
   \<and> rankOf (run wonGame [Close 1, Message 0 MarkReady 3000]) 7 < rankOf wonGame 7
   \<and> map_option phase (getGameState countdownGame 7) = Some Countdown
   \<and> map_option phase (getGameState (run countdownGame [Close 1, Message 0 MarkReady 3000]) 7)
       = Some Waiting
   \<and> map_option ws (map_of (connections wonGame) (7, ''alice'')) = Some 0
   \<and> map_option ws (map_of (connections (run wonGame [Close 1, Message 0 MarkReady 3000]))
         (7, ''alice'')) = Some 0
   \<and> isOpen (run wonGame [Close 1, Message 0 MarkReady 3000]) 0"
  by code_simp

text \<open>
  C7, amended.  Take any state the arena server reaches from its initial state, and any
  further sequence of events (connections, frames, socket closes, timeouts firing, health
  checks) throughout which the session of game \<open>g\<close> exists, that is, is not deleted: the
  phase of the session at the end is the same or a later one in the order waiting,
  countdown, active, ended.  And whenever a session has a winner, it is in the ended phase
  and no countdown timeout is armed for it (\<open>declareWinner\<close> clears the timer; the
  auto-winner is declared from the waiting phase, where none is armed), so the transition
  to active cannot run after a winner has been declared.
\<close>

theorem phase_is_monotone:
  "(persists g (run initialServer es) es' \<longrightarrow>
      rankOf (run initialServer es) g \<le> rankOf (run (run initialServer es) es') g)
   \<and> (\<forall>gm. getGameState (run initialServer es) g = Some gm \<longrightarrow> winner gm \<noteq> None \<longrightarrow>
         phase gm = Ended \<and> \<not> countdownArmed (run initialServer es) g)"
proof -
  have ok: "timersOk (run initialServer es)"
    by (rule timersOk_run) (rule timersOk_initial)
  show ?thesis
    using rank_persists[OF ok] winner_not_armed[OF ok] by blast
qed

lemma wonGame_run:
  "wonGame = run initialServer
     [Connect (Some 7) ''alice'' 0, Connect (Some 7) ''bob'' 1, Message 0 MarkReady 2,
      Message 1 MarkReady 3, TimeoutFires 0 1002, Message 1 (Winner ''bob'') 2000]"
  by (simp add: wonGame_def countdownGame_def lobby_def run_def)

theorem phase_is_monotone_witness:
  "countdownArmed countdownGame 7
   \<and> persists 7 wonGame [TimeoutFires 2 16002]
   \<and> rankOf wonGame 7 \<le> rankOf (run wonGame [TimeoutFires 2 16002]) 7
   \<and> getGameState wonGame 7 =
        Some \<lparr>gameId = 7, phase = Ended, countdownStartTime = Some 1002,
              countdownDuration = 15000, players = [], readyPlayers = [''alice'', ''bob''],
              startTime = None, winner = Some ''bob''\<rparr>
   \<and> \<not> countdownArmed wonGame 7"
proof -
  note inst = phase_is_monotone
    [of 7 "[Connect (Some 7) ''alice'' 0, Connect (Some 7) ''bob'' 1, Message 0 MarkReady 2,
            Message 1 MarkReady 3, TimeoutFires 0 1002, Message 1 (Winner ''bob'') 2000]"
        "[TimeoutFires 2 16002]", folded wonGame_run]
  have a: "countdownArmed countdownGame 7" by code_simp
  have p: "persists 7 wonGame [TimeoutFires 2 16002]" by code_simp
  have g: "getGameState wonGame 7 =
        Some \<lparr>gameId = 7, phase = Ended, countdownStartTime = Some 1002,
              countdownDuration = 15000, players = [], readyPlayers = [''alice'', ''bob''],
              startTime = None, winner = Some ''bob''\<rparr>" by code_simp
  from inst p have m: "rankOf wonGame 7 \<le> rankOf (run wonGame [TimeoutFires 2 16002]) 7"
    by blast
  from inst g have n: "\<not> countdownArmed wonGame 7" by simp
  from a p m g n show ?thesis by blast
qed

subsection \<open>\<open>start_game\<close> with nobody ready\<close>

text \<open>
  C6.  The session of game \<open>g\<close> is in the waiting phase with an empty ready set, and the
  requester \<open>p\<close> has a registered connection with an open socket.  A \<open>start_game\<close> frame
  from \<open>p\<close> then leaves the whole server state as it was (sessions, hence phase, ready set,
  roster and winner; timers; connections) but for one frame appended to the outbox: the
  error \<open>No players ready\<close>, to the socket of \<open>p\<close>.  Nothing is sent to any other socket.
\<close>

theorem start_game_no_players_ready:
  assumes "getGameState s g = Some gm" and "phase gm = Waiting" and "readyPlayers gm = []"
      and "map_of (connections s) (g, p) = Some c" and "isOpen s (ws c)"
  shows "handlePhase3Message p g StartGame now s
           = s\<lparr>outbox := outbox s @ [(ws c, ErrorOut ''No players ready'')]\<rparr>"
  using assms
  by (simp add: handlePhase3Message_def handleStartGame_def startGame_def canStartGame_def
      sendToPlayer_def sendIfOpen_def)

theorem start_game_no_players_ready_witness:
  "getGameState lobby 7 = Some (newGame 7)
   \<and> map_of (connections lobby) (7, ''bob'') =
       Some \<lparr>ws = 1, c_playerId = ''bob'', c_gameId = 7, lastHeartbeat = 1, isAlive = True\<rparr>
   \<and> isOpen lobby 1
   \<and> step lobby (Message 1 StartGame 5)
       = lobby\<lparr>outbox := outbox lobby @ [(1, ErrorOut ''No players ready'')]\<rparr>"
proof -
  let ?c = "\<lparr>ws = 1, c_playerId = ''bob'', c_gameId = 7, lastHeartbeat = 1, isAlive = True\<rparr>"
  have g: "getGameState lobby 7 = Some (newGame 7)" by code_simp
  have c: "map_of (connections lobby) (7, ''bob'') = Some ?c" by code_simp
  have o: "isOpen lobby (ws ?c)" by code_simp
  have l: "map_of (listeners lobby) 1 = Some (''bob'', 7)" by code_simp
  have "handlePhase3Message ''bob'' 7 StartGame 5 lobby
          = lobby\<lparr>outbox := outbox lobby @ [(ws ?c, ErrorOut ''No players ready'')]\<rparr>"
    by (rule start_game_no_players_ready [OF g _ _ c o]) (simp_all add: newGame_def)
  with g c o l show ?thesis by simp
qed

section \<open>Properties of the arena server: the roster\<close>

lemma roster_same: "getGameState s' = getGameState s \<Longrightarrow> roster s' = roster s"
  by (simp add: roster_def fun_eq_iff)

lemma roster_frames [simp]:
  "roster (sendIfOpen w m s) = roster s"
  "roster (closeSocket w s) = roster s"
  "roster (broadcastToGame g m ex s) = roster s"
  "roster (sendToPlayer p g m s) = roster s"
  "roster (addConnection w p g now s) = roster s"
  "roster (removeConnection p g s) = roster s"
  "roster (updateHeartbeat p g now s) = roster s"
  "roster (broadcastGameState g s) = roster s"
  "roster (sendInitialGameState w g s) = roster s"
  "roster (checkStaleConnections now s) = roster s"
  "roster (clearTimeout h s) = roster s"
  "roster (snd (setTimeout cb s)) = roster s"
  "roster (clearGameTimer g s) = roster s"
  "roster (s\<lparr>listeners := l\<rparr>) = roster s"
  "roster (s\<lparr>nextSocket := n\<rparr>) = roster s"
  "roster (s\<lparr>gameTimers := gt\<rparr>) = roster s"
  "roster (s\<lparr>gameDeadlineTimers := dt\<rparr>) = roster s"
  by (rule roster_same, simp)+

lemma roster_putGame:
  "roster (putGame g gm s) g' = (if g' = g then map fst (players gm) else roster s g')"
  by (simp add: roster_def)

lemma roster_getOrCreateGame [simp]: "roster (getOrCreateGame g s) = roster s"
  by (auto simp: fun_eq_iff getOrCreateGame_def roster_putGame newGame_def roster_def
      split: option.splits)

lemma roster_putGame_same:
  "getGameState s g = Some gm \<Longrightarrow> players gm' = players gm \<Longrightarrow> roster (putGame g gm' s) = roster s"
  by (auto simp: fun_eq_iff roster_putGame roster_def)

lemma roster_checkAutoStart [simp]: "roster (checkAutoStart g s) = roster s"
  by (simp add: checkAutoStart_def)

lemma roster_startGame [simp]: "roster (snd (startGame g now s)) = roster s"
proof (cases rule: startGame_cases[where s = s and g = g and now = now])
  case refused
  then show ?thesis by simp
next
  case (autoWinner gm)
  then show ?thesis by (simp add: roster_putGame_same)
next
  case (countdown gm)
  have "getGameState (snd (startGame g now s))
          = getGameState (putGame g (gm\<lparr>phase := Countdown, countdownStartTime := Some now\<rparr>) s)"
    using countdown(4) by (simp add: getGameState_def fun_eq_iff putGame_def)
  then have "roster (snd (startGame g now s))
          = roster (putGame g (gm\<lparr>phase := Countdown, countdownStartTime := Some now\<rparr>) s)"
    by (rule roster_same)
  with countdown(1) show ?thesis by (simp add: roster_putGame_same)
qed

lemma roster_declareWinner [simp]: "roster (declareWinner g w s) = roster s"
  by (simp add: declareWinner_def roster_putGame_same split: option.splits)

lemma roster_markPlayerReady [simp]: "roster (markPlayerReady g p s) = roster s"
proof -
  have "roster (markPlayerReady g p s) = roster (getOrCreateGame g s)"
    by (simp add: markPlayerReady_def Let_def roster_putGame_same split: option.splits)
  then show ?thesis by simp
qed

lemma roster_startDeadlineMonitor [simp]: "roster (startDeadlineMonitor g d now s) = roster s"
  by (simp add: startDeadlineMonitor_def Let_def case_prod_beta split: option.splits)

text \<open>\<open>updatePlayerState\<close> is the one function that adds a key to a roster.\<close>

lemma roster_updatePlayerState:
  "set (roster (updatePlayerState g p st s) g') \<subseteq>
     set (roster s g') \<union> (if g' = g \<and> getGameState s g \<noteq> None then {p} else {})"
  by (auto simp: updatePlayerState_def roster_putGame roster_def dom_update split: option.splits)

lemma roster_removePlayer: "set (roster (removePlayer g p s) g') \<subseteq> set (roster s g')"
proof (cases "getGameState s g")
  case None
  then show ?thesis by (simp add: removePlayer_def)
next
  case (Some gm)
  have d: "set (map fst (AList.delete p (players gm))) \<subseteq> set (map fst (players gm))"
    using dom_delete_subset[of p "players gm"] by simp
  show ?thesis
  proof (cases "AList.delete p (players gm) = []")
    case True
    with Some show ?thesis
      by (auto simp: removePlayer_def roster_def getGameState_def delete_conv' split: option.splits)
  next
    case False
    with Some d show ?thesis
      by (auto simp: removePlayer_def roster_putGame roster_def)
  qed
qed

lemma roster_handleMessage:
  "set (roster (handleMessage p g msg now s) g') \<subseteq>
     set (roster s g') \<union> (if g' = g \<and> (\<exists>st. msg = Update st) \<and> getGameState s g \<noteq> None then {p} else {})"
proof (cases msg)
  case (Update st)
  with roster_updatePlayerState[of g p st s g'] show ?thesis
    by (simp add: handlePlayerUpdate_def)
next
  case StartGame
  have "roster (handleStartGame p g now s) = roster (snd (startGame g now s))"
    by (simp add: handleStartGame_def Let_def case_prod_beta split: option.splits)
  with StartGame show ?thesis by simp
qed (simp_all add: handleHeartbeat_def handleMarkReady_def handleEliminated_def handleWinner_def
       Let_def split: option.splits)

lemma roster_handlePhase3Message:
  "set (roster (handlePhase3Message p g msg now s) g') \<subseteq>
     set (roster s g') \<union> (if g' = g \<and> (\<exists>st. msg = Update st) \<and> getGameState s g \<noteq> None then {p} else {})"
  using roster_handleMessage[of p g msg now s g']
  by (cases msg) (simp_all add: handlePhase3Message_def Let_def del: handleMessage.simps)

lemma roster_handlePhase3Connection [simp]:
  "roster (handlePhase3Connection w gid p now s) = roster s"
  by (simp add: handlePhase3Connection_def Let_def addPlayer_def split: option.splits)

lemma roster_transitionToActive [simp]: "roster (transitionToActive g now s) = roster s"
  by (simp add: transitionToActive_def roster_putGame_same split: option.splits)

lemma roster_autoStartCallback [simp]: "roster (autoStartCallback g now s) = roster s"
  by (simp add: autoStartCallback_def case_prod_beta)

lemma roster_runTimer [simp]: "roster (runTimer cb now s) = roster s"
  by (cases cb) simp_all

lemma roster_handleClose: "set (roster (handleClose p g s) g') \<subseteq> set (roster s g')"
  using roster_removePlayer[of g p "removeConnection p g s" g'] by (simp add: handleClose_def)

lemma roster_step:
  assumes "q \<in> set (roster (step s e) g)"
  shows "q \<in> set (roster s g) \<or>
         (\<exists>w st now. e = Message w (Update st) now \<and> map_of (listeners s) w = Some (q, g))"
proof (cases e)
  case (Connect gid p now)
  with assms show ?thesis by simp
next
  case (Message w m now)
  show ?thesis
  proof (cases "map_of (listeners s) w")
    case None
    with Message assms show ?thesis by simp
  next
    case (Some pg)
    obtain p g0 where pg: "pg = (p, g0)" by (cases pg)
    with Some Message assms roster_handlePhase3Message[of p g0 m now s g]
    show ?thesis by (auto split: if_splits)
  qed
next
  case (Close w)
  show ?thesis
  proof (cases "map_of (listeners s) w")
    case None
    with Close assms show ?thesis by simp
  next
    case (Some pg)
    obtain p g0 where pg: "pg = (p, g0)" by (cases pg)
    with Some Close assms
      roster_handleClose[of p g0 "(closeSocket w s)\<lparr>listeners := AList.delete w (listeners s)\<rparr>" g]
    show ?thesis by auto
  qed
next
  case (TimeoutFires h now)
  with assms show ?thesis by (simp split: option.splits)
next
  case (HealthCheck now)
  with assms show ?thesis by simp
next
  case (SocketGone w)
  with assms show ?thesis by simp
qed

lemma run_snoc: "run s (es @ [e]) = step (run s es) e"
  by (simp add: run_def)

lemma persists_snoc:
  "persists g s (es @ [e]) \<longleftrightarrow> persists g s es \<and> getGameState (run s (es @ [e])) g \<noteq> None"
  by (induction es arbitrary: s) (auto simp: run_def)

lemma roster_nonempty_exists: "q \<in> set (roster s g) \<Longrightarrow> getGameState s g \<noteq> None"
  by (cases "getGameState s g") (simp_all add: roster_def)

lemma roster_run:
  "q \<in> set (roster (run s0 es) g) \<Longrightarrow>
   q \<in> set (roster s0 g) \<or>
   (\<exists>es1 w st now es2.
      es = es1 @ Message w (Update st) now # es2 \<and>
      map_of (listeners (run s0 es1)) w = Some (q, g) \<and>
      persists g (run s0 (es1 @ [Message w (Update st) now])) es2)"
proof (induction es rule: rev_induct)
  case Nil
  then show ?case by (simp add: run_def)
next
  case (snoc e es)
  from snoc.prems have now_in: "q \<in> set (roster (step (run s0 es) e) g)"
    by (simp add: run_snoc)
  then have ex: "getGameState (run s0 (es @ [e])) g \<noteq> None"
    by (simp add: run_snoc roster_nonempty_exists)
  from roster_step[OF now_in] show ?case
  proof
    assume "q \<in> set (roster (run s0 es) g)"
    from snoc.IH[OF this] show ?thesis
    proof
      assume "q \<in> set (roster s0 g)" then show ?thesis by simp
    next
      assume "\<exists>es1 w st now es2.
        es = es1 @ Message w (Update st) now # es2 \<and>
        map_of (listeners (run s0 es1)) w = Some (q, g) \<and>
        persists g (run s0 (es1 @ [Message w (Update st) now])) es2"
      then obtain es1 w st now es2 where
        d: "es = es1 @ Message w (Update st) now # es2"
           "map_of (listeners (run s0 es1)) w = Some (q, g)"
           "persists g (run s0 (es1 @ [Message w (Update st) now])) es2" by blast
      have "run (run s0 (es1 @ [Message w (Update st) now])) (es2 @ [e]) = run s0 (es @ [e])"
        using d(1) by (simp add: run_def)
      with d(3) ex have "persists g (run s0 (es1 @ [Message w (Update st) now])) (es2 @ [e])"
        by (simp add: persists_snoc)
      with d(1,2) have "es @ [e] = es1 @ Message w (Update st) now # (es2 @ [e]) \<and>
        map_of (listeners (run s0 es1)) w = Some (q, g) \<and>
        persists g (run s0 (es1 @ [Message w (Update st) now])) (es2 @ [e])" by simp
      then show ?thesis by blast
    qed
  next
    assume "\<exists>w st now. e = Message w (Update st) now \<and> map_of (listeners (run s0 es)) w = Some (q, g)"
    then obtain w st now where
      e: "e = Message w (Update st) now" "map_of (listeners (run s0 es)) w = Some (q, g)" by blast
    with ex have "es @ [e] = es @ Message w (Update st) now # [] \<and>
        map_of (listeners (run s0 es)) w = Some (q, g) \<and>
        persists g (run s0 (es @ [Message w (Update st) now])) []" by simp
    then show ?thesis by blast
  qed
qed


lemma close_deletes_session:
  assumes "getGameState s g = Some gm" and "set (map fst (players gm)) \<subseteq> {p}"
  shows "getGameState (handleClose p g s) g = None"
proof -
  have "AList.delete p (players gm) = []"
    using assms(2) by (auto simp: AList.delete_eq filter_empty_conv)
  with assms(1) show ?thesis
    by (simp add: handleClose_def removePlayer_def getGameState_def delete_conv')
qed

lemma connections_removeConnection:
  "k \<noteq> (g, p) \<Longrightarrow> map_of (connections (removeConnection p g s)) k = map_of (connections s) k"
  by (simp add: removeConnection_def Let_def delete_conv' split: option.splits)

lemma connections_removePlayer [simp]: "connections (removePlayer g p s) = connections s"
  by (simp add: removePlayer_def Let_def putGame_def clearGameTimer_def clearTimeout_def
      split: option.splits)

lemma close_keeps_other_connections:
  "k \<noteq> (g, p) \<Longrightarrow> map_of (connections (handleClose p g s)) k = map_of (connections s) k"
  by (simp add: handleClose_def broadcastToGame_def connections_removeConnection)

text \<open>
  C10.  Three facts about the roster \<open>players\<close> of the TypeScript server.
  Handling a connection (\<open>addConnection\<close>, \<open>addPlayer\<close>, the initial frames) leaves every
  roster as it was.  If \<open>q\<close> is a key of the roster of game \<open>g\<close> after the events \<open>es\<close>
  from the initial state, then \<open>es\<close> contains an \<open>update\<close> frame received on a socket whose
  connection is that of \<open>q\<close> in \<open>g\<close>, and the session of \<open>g\<close> exists from that frame on to
  the end of \<open>es\<close>.  And when the roster of a session has no key other than \<open>p\<close> (it is
  empty, for one), the \<open>close\<close> handler of \<open>p\<close> deletes the session, while the connection
  records of all other peers stay in the registry.
\<close>

theorem roster_filled_only_by_update:
  "roster (handlePhase3Connection w gid p now s) = roster s
   \<and> (q \<in> set (roster (run initialServer es) g) \<longrightarrow>
        (\<exists>es1 w' st now' es2.
           es = es1 @ Message w' (Update st) now' # es2 \<and>
           map_of (listeners (run initialServer es1)) w' = Some (q, g) \<and>
           persists g (run initialServer (es1 @ [Message w' (Update st) now'])) es2))
   \<and> (\<forall>gm. getGameState s g = Some gm \<longrightarrow> set (map fst (players gm)) \<subseteq> {p} \<longrightarrow>
          getGameState (handleClose p g s) g = None
          \<and> (\<forall>k. k \<noteq> (g, p) \<longrightarrow>
                 map_of (connections (handleClose p g s)) k = map_of (connections s) k))"
proof (intro conjI impI allI)
  show "roster (handlePhase3Connection w gid p now s) = roster s" by simp
next
  assume "q \<in> set (roster (run initialServer es) g)"
  from roster_run[OF this]
  show "\<exists>es1 w' st now' es2.
           es = es1 @ Message w' (Update st) now' # es2 \<and>
           map_of (listeners (run initialServer es1)) w' = Some (q, g) \<and>
           persists g (run initialServer (es1 @ [Message w' (Update st) now'])) es2"
    by (simp add: roster_def initialServer_def getGameState_def)
next
  fix gm assume "getGameState s g = Some gm" "set (map fst (players gm)) \<subseteq> {p}"
  then show "getGameState (handleClose p g s) g = None" by (rule close_deletes_session)
next
  fix gm k assume "k \<noteq> (g, p)"
  then show "map_of (connections (handleClose p g s)) k = map_of (connections s) k"
    by (rule close_keeps_other_connections)
qed


theorem roster_filled_only_by_update_witness:
  "roster lobby 7 = []
   \<and> map fst (connections lobby) = [(7, ''alice''), (7, ''bob'')]
   \<and> getGameState lobby 7 = Some (newGame 7)
   \<and> getGameState (step lobby (Close 0)) 7 = None
   \<and> map_of (connections (step lobby (Close 0))) (7, ''bob'') =
        Some \<lparr>ws = 1, c_playerId = ''bob'', c_gameId = 7, lastHeartbeat = 1, isAlive = True\<rparr>
   \<and> isOpen (step lobby (Close 0)) 1
   \<and> roster (step lobby (Message 0 (Update aliceState) 5)) 7 = [''alice'']"
proof -
  let ?s = "(closeSocket 0 lobby)\<lparr>listeners := AList.delete 0 (listeners lobby)\<rparr>"
  note inst = roster_filled_only_by_update
    [of 2 "Some 7" "''alice''" 9 ?s "''alice''"
        "[Connect (Some 7) ''alice'' 0, Connect (Some 7) ''bob'' 1, Message 0 (Update aliceState) 5]"
        7]
  have l: "map_of (listeners lobby) 0 = Some (''alice'', 7)" by code_simp
  have st: "step lobby (Close 0) = handleClose ''alice'' 7 ?s" using l by simp
  have g: "getGameState ?s 7 = Some (newGame 7)" by code_simp
  have c: "map_of (connections ?s) (7, ''bob'') =
        Some \<lparr>ws = 1, c_playerId = ''bob'', c_gameId = 7, lastHeartbeat = 1, isAlive = True\<rparr>"
    by code_simp
  from inst g have d: "getGameState (handleClose ''alice'' 7 ?s) 7 = None"
    by (simp add: newGame_def)
  from inst g have "map_of (connections (handleClose ''alice'' 7 ?s)) (7, ''bob'')
                      = map_of (connections ?s) (7, ''bob'')"
    by (simp add: newGame_def)
  with c have k: "map_of (connections (handleClose ''alice'' 7 ?s)) (7, ''bob'') =
        Some \<lparr>ws = 1, c_playerId = ''bob'', c_gameId = 7, lastHeartbeat = 1, isAlive = True\<rparr>"
    by simp
  have r0: "roster lobby 7 = []" by code_simp
  have cs: "map fst (connections lobby) = [(7, ''alice''), (7, ''bob'')]" by code_simp
  have g0: "getGameState lobby 7 = Some (newGame 7)" by code_simp
  have o: "isOpen (step lobby (Close 0)) 1" by code_simp
  have r1: "roster (step lobby (Message 0 (Update aliceState) 5)) 7 = [''alice'']" by code_simp
  from r0 cs g0 d k o r1 show ?thesis unfolding st by blast
qed

subsection \<open>The \<open>update\<close> frame\<close>

text \<open>
  C9.  An \<open>update\<close> frame with data \<open>st\<close> from peer \<open>p\<close> of game \<open>g\<close> returns the server
  state with two fields changed.  In \<open>games\<close>, the session of \<open>g\<close> (if there is one) has
  \<open>players[p]\<close> set to \<open>st\<close> and is otherwise the same record: phase, ready set, winner,
  countdown start and start time are untouched, and so are all other sessions.  The outbox
  gains one \<open>update\<close> frame carrying \<open>p\<close> and \<open>st\<close> for every recipient of the broadcast.
  All timers (\<open>timeouts\<close>, \<open>gameTimers\<close>, \<open>gameDeadlineTimers\<close>) and the connection registry
  are unchanged.  The recipients are the sockets of the room's connection records whose
  socket is open and whose peer is not \<open>p\<close>.
\<close>

theorem update_changes_only_the_roster:
  "handlePhase3Message p g (Update st) now s =
     s\<lparr>games := (case getGameState s g of
                   None \<Rightarrow> games s
                 | Some gm \<Rightarrow>
                     AList.update g (gm\<lparr>players := AList.update p st (players gm)\<rparr>) (games s)),
       outbox := outbox s @ map (\<lambda>w. (w, UpdateOut p st)) (recipients s g (Some p))\<rparr>
   \<and> (p \<noteq> [] \<longrightarrow>
        recipients s g (Some p) =
          map ws (filter (\<lambda>c. isOpen s (ws c) \<and> c_playerId c \<noteq> p) (gameConns s g)))"
  by (auto simp: handlePhase3Message_def handlePlayerUpdate_def updatePlayerState_def
      broadcastToGame_def recipients_def gameConns_def isOpen_def putGame_def notExcluded_def
      split: option.splits)

theorem update_changes_only_the_roster_witness:
  "step lobby (Message 0 (Update aliceState) 5) =
     lobby\<lparr>games := [(7, (newGame 7)\<lparr>players := [(''alice'', aliceState)]\<rparr>)],
           outbox := outbox lobby @ [(1, UpdateOut ''alice'' aliceState)]\<rparr>"
proof -
  note inst = update_changes_only_the_roster [of "''alice''" 7 aliceState 5 lobby]
  have l: "map_of (listeners lobby) 0 = Some (''alice'', 7)" by code_simp
  have g: "getGameState lobby 7 = Some (newGame 7)" by code_simp
  have gs: "games lobby = [(7, newGame 7)]" by code_simp
  have r: "map ws (filter (\<lambda>c. isOpen lobby (ws c) \<and> c_playerId c \<noteq> ''alice'') (gameConns lobby 7)) = [1]"
    by code_simp
  from inst r have "recipients lobby 7 (Some ''alice'') = [1]" by simp
  with inst l g gs show ?thesis by (simp add: newGame_def)
qed


section \<open>Properties of the arena server: \<open>eliminated\<close>, \<open>mark_ready\<close>, \<open>heartbeat\<close>\<close>

subsection \<open>The \<open>eliminated\<close> frame\<close>

text \<open>
  C2, as stated, fails on the TypeScript server.  Game 7 is active, alice and bob are both
  stored as alive; bob sends \<open>eliminated\<close>.  The frame is broadcast to both sockets, but the
  stored state of bob still has \<open>alive = true\<close> afterwards, so the winner check sees two
  alive peers and the game stays active.
\<close>

theorem eliminated_counterexample:
  "map_option (\<lambda>gm. map_option alive (map_of (players gm) ''bob''))
     (getGameState activeGame 7) = Some (Some True)
   \<and> map_option (\<lambda>gm. map_option alive (map_of (players gm) ''bob''))
       (getGameState (step activeGame (Message 1 Eliminated 17000)) 7) = Some (Some True)
   \<and> map_option phase (getGameState (step activeGame (Message 1 Eliminated 17000)) 7)
       = Some Active
   \<and> outbox (step activeGame (Message 1 Eliminated 17000))
       = outbox activeGame @ [(0, EliminatedOut ''bob''), (1, EliminatedOut ''bob'')]"
  by code_simp

lemma aliveNotFalse_spread [simp]: "aliveNotFalse (spreadNotAlive st) = False"
  by (cases st) simp_all

lemma recipients_broadcast [simp]:
  "recipients (broadcastToGame g m ex s) = recipients s"
  "recipients (declareWinner g' w s) = recipients s"
  by (simp_all add: fun_eq_iff recipients_def gameConns_def isOpen_def broadcastToGame_def
      declareWinner_def putGame_def clearGameTimer_def clearTimeout_def split: option.splits)

lemma outbox_broadcastToGame [simp]:
  "outbox (broadcastToGame g m ex s) = outbox s @ map (\<lambda>w. (w, m)) (recipients s g ex)"
  by (simp add: broadcastToGame_def)

lemma outbox_declareWinner [simp]: "outbox (declareWinner g w s) = outbox s"
  by (simp add: declareWinner_def putGame_def clearGameTimer_def clearTimeout_def
      split: option.splits)

lemma players_declareWinner:
  "map_option players (getGameState (declareWinner g w s) g') = map_option players (getGameState s g')"
  by (simp add: declareWinner_def split: option.splits)

lemma js_receives_room [simp]: "js_receives (wd\<lparr>room := r\<rparr>) = js_receives wd"
  by (simp add: js_receives_def fun_eq_iff)

lemma handleEliminated_eq:
  "handleEliminated p g s =
     (let s1 = broadcastToGame g (EliminatedOut p) None s
      in case getGameState s g of
           None \<Rightarrow> s1
         | Some gm \<Rightarrow>
             (case (if phase gm = Active then soleSurvivor gm else None) of
                None \<Rightarrow> s1
              | Some w \<Rightarrow>
                  broadcastToGame g (WinnerOut (Some (id_p w))) None
                    (declareWinner g (id_p w) s1)))"
  by (simp add: Let_def handleEliminated_def soleSurvivor_def split: option.splits)

text \<open>
  C2, amended.  On an \<open>eliminated\<close> frame from peer \<open>p\<close> of game \<open>g\<close> the TypeScript server
  changes no stored \<open>PlayerState\<close>: every roster is as before.  It first broadcasts
  \<open>eliminated\<close> for \<open>p\<close> to the open sockets of the room and then runs the winner check on
  the stored \<open>alive\<close> flags, as the peers' own \<open>update\<close> frames left them: when the session
  is active and exactly one stored state is alive, the session becomes ended with that
  state's id as winner and a \<open>winner\<close> frame follows; otherwise the session is unchanged.
  In \<open>server.js\<close>, which has no winner check, the handler does store \<open>alive = false\<close> for
  the sender (both in the stored state and in the flag of the roster entry) and broadcasts
  \<open>eliminated\<close> to the open sockets of the room.
\<close>

theorem eliminated_leaves_states_alone:
  "(\<forall>g'. map_option players (getGameState (handlePhase3Message p g Eliminated now s) g')
           = map_option players (getGameState s g'))
   \<and> outbox (handlePhase3Message p g Eliminated now s) =
       outbox s @ map (\<lambda>w. (w, EliminatedOut p)) (recipients s g None)
       @ (case getGameState s g of
            None \<Rightarrow> []
          | Some gm \<Rightarrow>
              (case (if phase gm = Active then soleSurvivor gm else None) of
                 None \<Rightarrow> []
               | Some w \<Rightarrow> map (\<lambda>w'. (w', WinnerOut (Some (id_p w)))) (recipients s g None)))
   \<and> (\<forall>gm. getGameState s g = Some gm \<longrightarrow>
         getGameState (handlePhase3Message p g Eliminated now s) g =
           Some (case (if phase gm = Active then soleSurvivor gm else None) of
                   None \<Rightarrow> gm
                 | Some w \<Rightarrow> gm\<lparr>phase := Ended, winner := Some (id_p w)\<rparr>))
   \<and> (\<forall>a pl. map_of (sockets wd) w = Some a \<longrightarrow>
         map_of (room_players (room wd)) (ws_playerId a) = Some pl \<longrightarrow>
         js_handleMessage w JsEliminated tm wd =
           wd\<lparr>room := (room wd)\<lparr>room_players :=
                  AList.update (ws_playerId a)
                    (pl\<lparr>rp_state := spreadNotAlive (rp_state pl), lastUpdate := tm,
                        rp_alive := False\<rparr>)
                    (room_players (room wd))\<rparr>,
              sent := sent wd @ map (\<lambda>c. (c, JsEliminatedOut (ws_playerId a) tm))
                                    (filter (js_receives wd None) (clients (room wd)))\<rparr>)"
proof (intro conjI allI impI)
  fix g'
  show "map_option players (getGameState (handlePhase3Message p g Eliminated now s) g')
           = map_option players (getGameState s g')"
    by (simp add: handlePhase3Message_def handleEliminated_eq Let_def players_declareWinner
        split: option.splits)
next
  show "outbox (handlePhase3Message p g Eliminated now s) =
       outbox s @ map (\<lambda>w. (w, EliminatedOut p)) (recipients s g None)
       @ (case getGameState s g of
            None \<Rightarrow> []
          | Some gm \<Rightarrow>
              (case (if phase gm = Active then soleSurvivor gm else None) of
                 None \<Rightarrow> []
               | Some w \<Rightarrow> map (\<lambda>w'. (w', WinnerOut (Some (id_p w)))) (recipients s g None)))"
    by (simp add: handlePhase3Message_def handleEliminated_eq Let_def split: option.splits)
next
  fix gm assume g: "getGameState s g = Some gm"
  then show "getGameState (handlePhase3Message p g Eliminated now s) g =
           Some (case (if phase gm = Active then soleSurvivor gm else None) of
                   None \<Rightarrow> gm
                 | Some w \<Rightarrow> gm\<lparr>phase := Ended, winner := Some (id_p w)\<rparr>)"
    by (simp add: handlePhase3Message_def handleEliminated_eq Let_def declareWinner_def
        split: option.splits)
next
  fix a pl
  assume "map_of (sockets wd) w = Some a"
     and "map_of (room_players (room wd)) (ws_playerId a) = Some pl"
  then show "js_handleMessage w JsEliminated tm wd =
           wd\<lparr>room := (room wd)\<lparr>room_players :=
                  AList.update (ws_playerId a)
                    (pl\<lparr>rp_state := spreadNotAlive (rp_state pl), lastUpdate := tm,
                        rp_alive := False\<rparr>)
                    (room_players (room wd))\<rparr>,
              sent := sent wd @ map (\<lambda>c. (c, JsEliminatedOut (ws_playerId a) tm))
                                    (filter (js_receives wd None) (clients (room wd)))\<rparr>"
    by (simp add: js_handleMessage_def js_updatePlayerState_def js_broadcast_def Let_def)
qed


theorem eliminated_leaves_states_alone_witness:
  "map_of (listeners activeGame) 1 = Some (''bob'', 7)
   \<and> map_option phase (getGameState activeGame 7) = Some Active
   \<and> getGameState (step activeGame (Message 1 Eliminated 17000)) 7 = getGameState activeGame 7
   \<and> map_option (\<lambda>gm. (phase gm, winner gm))
        (getGameState (run activeGame [Message 1 (Update (bobState\<lparr>alive := False\<rparr>)) 16900,
                                       Message 1 Eliminated 17000]) 7)
       = Some (Ended, Some ''alice'')
   \<and> map_option rp_alive (map_of (room_players (room (js_handleMessage 1 JsEliminated 9 jsWorld))) ''bob'')
       = Some False
   \<and> sent (js_handleMessage 1 JsEliminated 9 jsWorld)
       = [(0, JsEliminatedOut ''bob'' 9), (1, JsEliminatedOut ''bob'' 9)]"
proof -
  let ?gm = "\<lparr>gameId = 7, phase = Active, countdownStartTime = Some 1004,
              countdownDuration = 15000,
              players = [(''alice'', aliceState), (''bob'', bobState)],
              readyPlayers = [''alice'', ''bob''], startTime = Some 16004, winner = None\<rparr>"
  let ?pl = "\<lparr>rp_id = ''bob'', rp_ws = 1, rp_state = FullState bobState, lastUpdate = 3,
              rp_alive = True\<rparr>"
  let ?a = "\<lparr>ws_gameId = ''7'', ws_playerId = ''bob'', ws_isAlive = False, ws_open = True\<rparr>"
  note inst = eliminated_leaves_states_alone
    [where p = "''bob''" and g = 7 and now = 17000 and s = activeGame and wd = jsWorld
       and w = 1 and tm = 9]
  have l: "map_of (listeners activeGame) 1 = Some (''bob'', 7)" by code_simp
  have g: "getGameState activeGame 7 = Some ?gm" by code_simp
  have n: "soleSurvivor ?gm = None" by code_simp
  have a: "map_of (sockets jsWorld) 1 = Some ?a" by code_simp
  have pl: "map_of (room_players (room jsWorld)) (ws_playerId ?a) = Some ?pl" by code_simp
  from inst g n have "getGameState (handlePhase3Message ''bob'' 7 Eliminated 17000 activeGame) 7
                        = Some ?gm" by simp
  with l g have same: "getGameState (step activeGame (Message 1 Eliminated 17000)) 7
                        = getGameState activeGame 7" by simp
  from inst a pl have "js_handleMessage 1 JsEliminated 9 jsWorld =
      jsWorld\<lparr>room := (room jsWorld)\<lparr>room_players :=
                  AList.update (ws_playerId ?a)
                    (?pl\<lparr>rp_state := spreadNotAlive (rp_state ?pl), lastUpdate := 9,
                         rp_alive := False\<rparr>)
                    (room_players (room jsWorld))\<rparr>,
              sent := sent jsWorld @ map (\<lambda>c. (c, JsEliminatedOut (ws_playerId ?a) 9))
                                    (filter (js_receives jsWorld None) (clients (room jsWorld)))\<rparr>"
    by blast
  moreover have "filter (js_receives jsWorld None) (clients (room jsWorld)) = [0, 1]"
    by code_simp
  moreover have "sent jsWorld = []" "map fst (room_players (room jsWorld)) = [''alice'', ''bob'']"
    by code_simp+
  ultimately have js:
    "map_option rp_alive (map_of (room_players (room (js_handleMessage 1 JsEliminated 9 jsWorld))) ''bob'')
       = Some False"
    "sent (js_handleMessage 1 JsEliminated 9 jsWorld)
       = [(0, JsEliminatedOut ''bob'' 9), (1, JsEliminatedOut ''bob'' 9)]"
    by (simp_all add: update_conv')
  have e: "map_option (\<lambda>gm. (phase gm, winner gm))
        (getGameState (run activeGame [Message 1 (Update (bobState\<lparr>alive := False\<rparr>)) 16900,
                                       Message 1 Eliminated 17000]) 7)
       = Some (Ended, Some ''alice'')" by code_simp
  from l g same e js show ?thesis by simp
qed

subsection \<open>Auto-start after \<open>mark_ready\<close>\<close>

text \<open>
  C4, as stated, fails on \<open>src/src/server.ts\<close>.  In the lobby of game 7 (waiting, nobody
  ready) alice marks ready: the ready set has one member, and an auto-start timeout is
  armed all the same, because \<open>canStartGame\<close> answers \<open>canStart: true\<close> for one ready peer.
  When that timeout fires the game ends with alice as winner.
\<close>

theorem single_ready_counterexample:
  "map_option phase (getGameState lobby 7) = Some Waiting
   \<and> autoStartScheduled lobby (step lobby (Message 0 MarkReady 2)) 7
   \<and> map_option readyPlayers (getGameState (step lobby (Message 0 MarkReady 2)) 7)
       = Some [''alice'']
   \<and> map_option (\<lambda>gm. (phase gm, winner gm))
        (getGameState (run lobby [Message 0 MarkReady 2, TimeoutFires 0 1002]) 7)
       = Some (Ended, Some ''alice'')"
  by code_simp

lemma timeouts_frames [simp]:
  "timeouts (markPlayerReady g p s) = timeouts s"
  "nextTimeout (markPlayerReady g p s) = nextTimeout s"
  "timeouts (getOrCreateGame g s) = timeouts s"
  "nextTimeout (getOrCreateGame g s) = nextTimeout s"
  "nextTimeout (broadcastGameState g s) = nextTimeout s"
  "nextTimeout (putGame g gm s) = nextTimeout s"
  by (simp_all add: markPlayerReady_def getOrCreateGame_def putGame_def broadcastGameState_def
      broadcastToGame_def Let_def split: option.splits)

lemma getGameState_getOrCreateGame:
  "getGameState s g = Some gm \<Longrightarrow> getOrCreateGame g s = s"
  by (simp add: getOrCreateGame_def)

lemma getGameState_markPlayerReady:
  "getGameState s g = Some gm \<Longrightarrow>
   getGameState (markPlayerReady g p s) g = Some (gm\<lparr>readyPlayers := set_add p (readyPlayers gm)\<rparr>)"
  by (simp add: markPlayerReady_def getGameState_getOrCreateGame)

lemma set_add_nonempty [simp]: "set_add p xs \<noteq> []"
  by (auto simp: set_add_def)

lemma nextTimeout_sendIfOpen [simp]: "nextTimeout (sendIfOpen w m s) = nextTimeout s"
  by (simp add: sendIfOpen_def)

lemma frames_clean [simp]:
  "getGameState (broadcastGameState_clean g s) = getGameState s"
  "timeouts (broadcastGameState_clean g s) = timeouts s"
  "nextTimeout (broadcastGameState_clean g s) = nextTimeout s"
proof -
  have f: "getGameState (fold (\<lambda>w. sendIfOpen w m) ws s) = getGameState s
         \<and> timeouts (fold (\<lambda>w. sendIfOpen w m) ws s) = timeouts s
         \<and> nextTimeout (fold (\<lambda>w. sendIfOpen w m) ws s) = nextTimeout s" for m ws
    by (induction ws arbitrary: s) simp_all
  show "getGameState (broadcastGameState_clean g s) = getGameState s"
    "timeouts (broadcastGameState_clean g s) = timeouts s"
    "nextTimeout (broadcastGameState_clean g s) = nextTimeout s"
    using f by (simp_all add: broadcastGameState_clean_def split: option.splits)
qed

lemma markPlayerReady_clean_facts:
  assumes "getGameState s g = Some gm"
  shows "getGameState (markPlayerReady_clean g p s) g
           = Some (gm\<lparr>readyPlayers := set_add p (readyPlayers gm)\<rparr>)"
    and "timeouts (markPlayerReady_clean g p s) = timeouts s"
    and "nextTimeout (markPlayerReady_clean g p s) = nextTimeout s"
  using assms by (simp_all add: markPlayerReady_clean_def getGameState_getOrCreateGame)

text \<open>The effect of a \<open>mark_ready\<close> on a session that exists, in both variants.\<close>

lemma mark_ready_on_session:
  assumes "getGameState s g = Some gm"
  shows "getGameState (handlePhase3Message p g MarkReady now s) g
           = Some (gm\<lparr>readyPlayers := set_add p (readyPlayers gm)\<rparr>)
       \<and> (phase gm = Waiting \<longrightarrow>
            autoStartScheduled s (handlePhase3Message p g MarkReady now s) g)
       \<and> (phase gm \<noteq> Waiting \<longrightarrow>
            timeouts (handlePhase3Message p g MarkReady now s) = timeouts s)
       \<and> getGameState (handleMarkReady_clean p g s) g
           = Some (gm\<lparr>readyPlayers := set_add p (readyPlayers gm)\<rparr>)
       \<and> (autoStartScheduled s (handleMarkReady_clean p g s) g
            \<longleftrightarrow> 2 \<le> length (set_add p (readyPlayers gm)))
       \<and> (\<not> 2 \<le> length (set_add p (readyPlayers gm)) \<longrightarrow>
            timeouts (handleMarkReady_clean p g s) = timeouts s)"
proof -
  let ?gm' = "gm\<lparr>readyPlayers := set_add p (readyPlayers gm)\<rparr>"
  let ?s1 = "handleMarkReady p g s"
  have g1: "getGameState ?s1 g = Some ?gm'"
    using getGameState_markPlayerReady[OF assms, of p]
    by (simp add: handleMarkReady_def Let_def)
  have t1: "timeouts ?s1 = timeouts s" "nextTimeout ?s1 = nextTimeout s"
    using getGameState_markPlayerReady[OF assms, of p]
    by (simp_all add: handleMarkReady_def Let_def)
  have c: "canStart (canStartGame ?s1 g) \<longleftrightarrow> phase gm = Waiting"
    using g1 by (simp add: canStart_iff)
  have ts: "handlePhase3Message p g MarkReady now s = checkAutoStart g ?s1"
    by (simp add: handlePhase3Message_def)
  let ?s2 = "broadcastGameState_clean g (markPlayerReady_clean g p s)"
  have g2: "getGameState ?s2 g = Some ?gm'" "timeouts ?s2 = timeouts s"
    "nextTimeout ?s2 = nextTimeout s"
    using markPlayerReady_clean_facts[OF assms, of p] by simp_all
  have c2: "fst (canStartGame_clean ?s2 g) \<longleftrightarrow> 2 \<le> length (set_add p (readyPlayers gm))"
    using g2 by (simp add: canStartGame_clean_def)
  have a1: "getGameState (handlePhase3Message p g MarkReady now s) g = Some ?gm'"
    using g1 by (simp add: ts checkAutoStart_def)
  have a2: "phase gm = Waiting \<longrightarrow>
            autoStartScheduled s (handlePhase3Message p g MarkReady now s) g"
    using c t1 by (simp add: ts checkAutoStart_def autoStartScheduled_def setTimeout_def)
  have a3: "phase gm \<noteq> Waiting \<longrightarrow>
            timeouts (handlePhase3Message p g MarkReady now s) = timeouts s"
    using c t1 by (simp add: ts checkAutoStart_def)
  have b1: "getGameState (handleMarkReady_clean p g s) g = Some ?gm'"
    using g2 by (simp add: handleMarkReady_clean_def checkAutoStart_clean_def)
  have b2: "autoStartScheduled s (handleMarkReady_clean p g s) g
            \<longleftrightarrow> 2 \<le> length (set_add p (readyPlayers gm))"
    using c2 g2
    by (simp add: handleMarkReady_clean_def checkAutoStart_clean_def autoStartScheduled_def
        setTimeout_def)
  have b3: "\<not> 2 \<le> length (set_add p (readyPlayers gm)) \<longrightarrow>
            timeouts (handleMarkReady_clean p g s) = timeouts s"
    using c2 g2 by (simp add: handleMarkReady_clean_def checkAutoStart_clean_def)
  from a1 a2 a3 b1 b2 b3 show ?thesis by blast
qed

lemma getOrCreateGame_idem [simp]: "getOrCreateGame g (getOrCreateGame g s) = getOrCreateGame g s"
  by (simp add: getOrCreateGame_def split: option.splits)

lemma getGameState_sessionOrNew:
  "getGameState (getOrCreateGame g s) g = Some (sessionOrNew s g)"
  by (simp add: getOrCreateGame_def sessionOrNew_def split: option.splits)

lemma markPlayerReady_created: "markPlayerReady g p (getOrCreateGame g s) = markPlayerReady g p s"
  by (simp add: markPlayerReady_def)

lemma markPlayerReady_clean_created:
  "markPlayerReady_clean g p (getOrCreateGame g s) = markPlayerReady_clean g p s"
  by (simp add: markPlayerReady_clean_def)

lemma mark_ready_created:
  "handlePhase3Message p g MarkReady now (getOrCreateGame g s) = handlePhase3Message p g MarkReady now s"
  "handleMarkReady_clean p g (getOrCreateGame g s) = handleMarkReady_clean p g s"
  by (simp_all add: handlePhase3Message_def handleMarkReady_def handleMarkReady_clean_def
      markPlayerReady_created markPlayerReady_clean_created)

lemma autoStartScheduled_created:
  "autoStartScheduled (getOrCreateGame g s) s' g' = autoStartScheduled s s' g'"
  by (simp add: autoStartScheduled_def)

text \<open>
  C4, amended.  A \<open>mark_ready\<close> from \<open>p\<close> acts on the session of the room, which it first
  re-creates (waiting, nobody ready) if it had been deleted: afterwards the ready set is
  that session's ready set with \<open>p\<close> added, so it has at least one member.  In
  \<open>src/src/server.ts\<close> the frame arms an auto-start timeout if that session is in the
  waiting phase, whatever the size of the ready set, and arms no timeout in any other
  phase.  In the variant of \<open>part_000\<close>, whose \<open>canStartGame\<close> is \<open>readyCount >= 2\<close>, the
  frame arms an auto-start timeout if and only if the resulting ready set has at least two
  members, and otherwise arms no timeout.
\<close>

theorem mark_ready_schedules_auto_start:
  "getGameState (handlePhase3Message p g MarkReady now s) g
     = Some ((sessionOrNew s g)\<lparr>readyPlayers := set_add p (readyPlayers (sessionOrNew s g))\<rparr>)
   \<and> (phase (sessionOrNew s g) = Waiting \<longrightarrow>
        autoStartScheduled s (handlePhase3Message p g MarkReady now s) g)
   \<and> (phase (sessionOrNew s g) \<noteq> Waiting \<longrightarrow>
        timeouts (handlePhase3Message p g MarkReady now s) = timeouts s)
   \<and> getGameState (handleMarkReady_clean p g s) g
       = Some ((sessionOrNew s g)\<lparr>readyPlayers := set_add p (readyPlayers (sessionOrNew s g))\<rparr>)
   \<and> (autoStartScheduled s (handleMarkReady_clean p g s) g
        \<longleftrightarrow> 2 \<le> length (set_add p (readyPlayers (sessionOrNew s g))))
   \<and> (\<not> 2 \<le> length (set_add p (readyPlayers (sessionOrNew s g))) \<longrightarrow>
        timeouts (handleMarkReady_clean p g s) = timeouts s)"
proof -
  have "getGameState (getOrCreateGame g s) g = Some (sessionOrNew s g)"
    by (rule getGameState_sessionOrNew)
  from mark_ready_on_session [OF this, of p now] show ?thesis
    by (simp add: mark_ready_created autoStartScheduled_created)
qed

theorem mark_ready_schedules_auto_start_witness:
  "sessionOrNew lobby 7 = newGame 7
   \<and> autoStartScheduled lobby (handlePhase3Message ''alice'' 7 MarkReady 2 lobby) 7
   \<and> \<not> autoStartScheduled lobby (handleMarkReady_clean ''alice'' 7 lobby) 7
   \<and> timeouts (handleMarkReady_clean ''alice'' 7 lobby) = []
   \<and> autoStartScheduled (handleMarkReady_clean ''alice'' 7 lobby)
         (handleMarkReady_clean ''bob'' 7 (handleMarkReady_clean ''alice'' 7 lobby)) 7
   \<and> getGameState emptiedLobby 7 = None
   \<and> getGameState (handlePhase3Message ''bob'' 7 MarkReady 9 emptiedLobby) 7
       = Some ((newGame 7)\<lparr>readyPlayers := [''bob'']\<rparr>)
   \<and> autoStartScheduled emptiedLobby (handlePhase3Message ''bob'' 7 MarkReady 9 emptiedLobby) 7"
proof -
  let ?s1 = "handleMarkReady_clean ''alice'' 7 lobby"
  let ?gm1 = "(newGame 7)\<lparr>readyPlayers := [''alice'']\<rparr>"
  note inst = mark_ready_schedules_auto_start
    [where s = lobby and g = 7 and p = "''alice''" and now = 2]
  note inst2 = mark_ready_schedules_auto_start
    [where s = ?s1 and g = 7 and p = "''bob''" and now = 3]
  note inst3 = mark_ready_schedules_auto_start
    [where s = emptiedLobby and g = 7 and p = "''bob''" and now = 9]
  have g: "sessionOrNew lobby 7 = newGame 7" by code_simp
  have t0: "timeouts lobby = []" by code_simp
  have e: "getGameState emptiedLobby 7 = None" by code_simp
  from e have ge: "sessionOrNew emptiedLobby 7 = newGame 7" by (simp add: sessionOrNew_def)
  from inst g have a: "autoStartScheduled lobby (handlePhase3Message ''alice'' 7 MarkReady 2 lobby) 7"
    by (simp add: newGame_def)
  from inst g have b: "\<not> autoStartScheduled lobby ?s1 7"
    by (simp add: newGame_def set_add_def)
  from inst g t0 have c: "timeouts ?s1 = []"
    by (simp add: newGame_def set_add_def)
  from inst g have g1: "sessionOrNew ?s1 7 = ?gm1"
    by (simp add: newGame_def set_add_def sessionOrNew_def)
  from inst2 g1 have d: "autoStartScheduled ?s1 (handleMarkReady_clean ''bob'' 7 ?s1) 7"
    by (simp add: newGame_def set_add_def)
  from inst3 ge have f: "getGameState (handlePhase3Message ''bob'' 7 MarkReady 9 emptiedLobby) 7
       = Some ((newGame 7)\<lparr>readyPlayers := [''bob'']\<rparr>)"
    by (simp add: newGame_def set_add_def)
  from inst3 ge have h: "autoStartScheduled emptiedLobby
       (handlePhase3Message ''bob'' 7 MarkReady 9 emptiedLobby) 7"
    by (simp add: newGame_def)
  from g a b c d e f h show ?thesis by blast
qed

subsection \<open>The \<open>heartbeat\<close> frame\<close>

text \<open>
  C5, as stated, fails on the TypeScript server.  Alice, connected to game 7 on an open
  socket, sends \<open>heartbeat\<close>: her connection record is touched, and the outbox is exactly as
  before, so no \<open>heartbeat_ack\<close> (indeed no frame at all) is sent.
\<close>

theorem heartbeat_counterexample:
  "map_of (listeners lobby) 0 = Some (''alice'', 7)
   \<and> outbox (step lobby (Message 0 Heartbeat 5)) = outbox lobby
   \<and> map_option lastHeartbeat (map_of (connections (step lobby (Message 0 Heartbeat 5))) (7, ''alice''))
       = Some 5"
  by code_simp

text \<open>
  C5, amended.  On a \<open>heartbeat\<close> frame from a peer with a connection record the TypeScript
  server sets \<open>lastHeartbeat\<close> to the current time and \<open>isAlive\<close> to true in that record and
  changes nothing else; in particular it sends no frame, in any state.  \<open>server.js\<close>, which
  keeps no heartbeat timestamp, sets \<open>isAlive\<close> on the socket and sends exactly one
  \<open>heartbeat_ack\<close> to the sender when its socket is open.
\<close>

theorem heartbeat_touches_without_ack:
  "(\<forall>c. map_of (connections s) (g, p) = Some c \<longrightarrow>
       handlePhase3Message p g Heartbeat now s =
         s\<lparr>connections :=
             AList.update (g, p) (c\<lparr>lastHeartbeat := now, isAlive := True\<rparr>) (connections s)\<rparr>)
   \<and> outbox (handlePhase3Message p g Heartbeat now s) = outbox s
   \<and> (\<forall>a. map_of (sockets wd) w = Some a \<longrightarrow> ws_open a \<longrightarrow>
         js_handleMessage w JsHeartbeat tm wd =
           wd\<lparr>sockets := AList.update w (a\<lparr>ws_isAlive := True\<rparr>) (sockets wd),
              sent := sent wd @ [(w, HeartbeatAck tm)]\<rparr>)"
  by (auto simp: handlePhase3Message_def handleHeartbeat_def updateHeartbeat_def
      js_handleMessage_def js_send_def update_conv' split: option.splits)

theorem heartbeat_touches_without_ack_witness:
  "step lobby (Message 0 Heartbeat 5) =
     lobby\<lparr>connections :=
        [((7, ''alice''),
          \<lparr>ws = 0, c_playerId = ''alice'', c_gameId = 7, lastHeartbeat = 5, isAlive = True\<rparr>),
         ((7, ''bob''),
          \<lparr>ws = 1, c_playerId = ''bob'', c_gameId = 7, lastHeartbeat = 1, isAlive = True\<rparr>)]\<rparr>
   \<and> sent (js_handleMessage 1 JsHeartbeat 9 jsWorld) = [(1, HeartbeatAck 9)]
   \<and> map_option ws_isAlive (map_of (sockets (js_handleMessage 1 JsHeartbeat 9 jsWorld)) 1)
       = Some True"
proof -
  let ?c = "\<lparr>ws = 0, c_playerId = ''alice'', c_gameId = 7, lastHeartbeat = 0, isAlive = True\<rparr>"
  let ?a = "\<lparr>ws_gameId = ''7'', ws_playerId = ''bob'', ws_isAlive = False, ws_open = True\<rparr>"
  note inst = heartbeat_touches_without_ack
    [where s = lobby and g = 7 and p = "''alice''" and now = 5 and wd = jsWorld and w = 1
       and tm = 9]
  have l: "map_of (listeners lobby) 0 = Some (''alice'', 7)" by code_simp
  have c: "map_of (connections lobby) (7, ''alice'') = Some ?c" by code_simp
  have cs: "connections lobby =
        [((7, ''alice''), ?c),
         ((7, ''bob''),
          \<lparr>ws = 1, c_playerId = ''bob'', c_gameId = 7, lastHeartbeat = 1, isAlive = True\<rparr>)]"
    by code_simp
  have a: "map_of (sockets jsWorld) 1 = Some ?a" by code_simp
  have s0: "sent jsWorld = []" by code_simp
  from inst c have "handlePhase3Message ''alice'' 7 Heartbeat 5 lobby =
         lobby\<lparr>connections :=
             AList.update (7, ''alice'') (?c\<lparr>lastHeartbeat := 5, isAlive := True\<rparr>)
               (connections lobby)\<rparr>" by blast
  with l cs have ts: "step lobby (Message 0 Heartbeat 5) =
     lobby\<lparr>connections :=
        [((7, ''alice''),
          \<lparr>ws = 0, c_playerId = ''alice'', c_gameId = 7, lastHeartbeat = 5, isAlive = True\<rparr>),
         ((7, ''bob''),
          \<lparr>ws = 1, c_playerId = ''bob'', c_gameId = 7, lastHeartbeat = 1, isAlive = True\<rparr>)]\<rparr>"
    by simp
  from inst a have "js_handleMessage 1 JsHeartbeat 9 jsWorld =
           jsWorld\<lparr>sockets := AList.update 1 (?a\<lparr>ws_isAlive := True\<rparr>) (sockets jsWorld),
              sent := sent jsWorld @ [(1, HeartbeatAck 9)]\<rparr>" by simp
  with s0 have js: "sent (js_handleMessage 1 JsHeartbeat 9 jsWorld) = [(1, HeartbeatAck 9)]"
    "map_option ws_isAlive (map_of (sockets (js_handleMessage 1 JsHeartbeat 9 jsWorld)) 1)
       = Some True"
    by (simp_all add: update_conv')
  from ts js show ?thesis by blast
qed


end
